theory Spec2Isabelle
  imports Main "HOL-Library.Word"
begin

unbundle bit_operations_syntax

section \<open>Data model of samples/ftrace/ftrace-ops.c\<close>

text \<open>
  The module is modelled for an LP64 kernel: \<open>unsigned int\<close> and \<open>int\<close> are 32-bit
  words, \<open>unsigned long\<close>, \<open>size_t\<close>, \<open>u64\<close> and \<open>ktime_t\<close> are 64-bit words.
  An \<open>int\<close> is kept as the 32-bit word of its two's complement bits (\<open>sint\<close> reads
  its value), which is what the conversions between \<open>unsigned int\<close> and \<open>int\<close> of
  the source preserve.
\<close>

type_synonym u32 = "32 word"
type_synonym u64 = "64 word"

text \<open>The two traceable functions of the module, as call sites known to ftrace.\<close>

datatype tracee = Tracee_relevant | Tracee_irrelevant

text \<open>The two tracer callbacks of the module (the values of an \<open>ftrace_func_t\<close>).\<close>

datatype ftrace_func = Ops_func_nop | Ops_func_count

text \<open>
  The part of \<open>struct ftrace_ops\<close> the module and the tracing of its two functions
  depend on. \<open>func\<close> is \<open>None\<close> for the null pointer \<open>kcalloc\<close> leaves there;
  \<open>filter_ip\<close> is the filter set by \<open>ftrace_set_filter_ip\<close> (\<open>None\<close>: no filter);
  \<open>enabled\<close> says whether the op is registered with ftrace.
\<close>

record ftrace_ops =
  func :: "ftrace_func option"
  flags :: u64
  filter_ip :: "tracee option"
  enabled :: bool

record sample_ops =
  ops :: ftrace_ops
  count :: u32

text \<open>What a kernel log or a probe on the two tracees can observe, in order.\<close>

datatype event =
    Pr_info_no_save_regs
  | Pr_info_registering u32 ftrace_func u32 ftrace_func bool bool bool
  | Pr_info_attempted u32 u64 u64
  | Pr_warn_counter u32 u32
  | Warn_on_once nat
  | Ktime_get
  | Call tracee

text \<open>Ways in which the C code can go wrong instead of returning.\<close>

datatype fault = Divide_error | Bad_pointer | Out_of_bounds

text \<open>
  The module's own variables: its eight parameters (lines 15-69) and its four static
  variables (lines 117-118 and 166-167). A pointer to an array of \<open>sample_ops\<close> is
  \<open>None\<close> when null and otherwise the address of the array in the kernel's memory.
\<close>

record module =
  nr_function_calls :: u32
  nr_ops_relevant :: u32
  nr_ops_irrelevant :: u32
  save_regs :: bool
  assist_recursion :: bool
  assist_rcu :: bool
  check_count :: bool
  persist :: bool
  ops_relevant :: "nat option"
  ops_irrelevant :: "nat option"
  tracer_relevant :: ftrace_func
  tracer_irrelevant :: ftrace_func

text \<open>
  The kernel state the module acts on: the memory holding arrays of \<open>sample_ops\<close>
  (an explicit store from addresses to arrays, with \<open>brk\<close> the next fresh address),
  the observable events so far, and how many allocations, fallible ftrace requests and
  clock readings have been made.
\<close>

record kernel =
  heap :: "nat \<Rightarrow> sample_ops list option"
  brk :: nat
  events :: "event list"
  nalloc :: nat
  nftrace :: nat
  nclock :: nat

text \<open>
  What the module takes from its build and its host, none of it under the module's
  control: the build option \<open>CONFIG_DYNAMIC_FTRACE_WITH_REGS\<close>, the three flag
  constants of \<open>linux/ftrace.h\<close> (parameters here, their header being outside this
  file), whether the n-th allocation and the n-th ftrace request fail, and the n-th
  reading of the clock.
\<close>

record env =
  CONFIG_DYNAMIC_FTRACE_WITH_REGS :: bool
  FTRACE_OPS_FL_SAVE_REGS :: u64
  FTRACE_OPS_FL_RECURSION :: u64
  FTRACE_OPS_FL_RCU :: u64
  kcalloc_fails :: "nat \<Rightarrow> bool"
  ftrace_fails :: "nat \<Rightarrow> bool"
  clock :: "nat \<Rightarrow> u64"

text \<open>
  Modelled from the spec: the error number \<open>EINVAL\<close> of \<open>errno-base.h\<close>, outside
  this file.
\<close>

definition EINVAL :: int where
  "EINVAL = 22"

section \<open>The kernel services the module calls\<close>

text \<open>
  None of these services is in the module's file. Each is modelled by what the module
  can observe of it; where the service can fail, or returns a value of the host's, the
  outcome is read from \<open>env\<close>.
\<close>

text \<open>The zeroed element \<open>kcalloc\<close> returns.\<close>

definition zeroed_ops :: sample_ops where
  "zeroed_ops =
     \<lparr>ops = \<lparr>func = None, flags = 0, filter_ip = None, enabled = False\<rparr>, count = 0\<rparr>"

text \<open>
  Modelled from the spec: the host's allocator (\<open>linux/slab.h\<close>).
  \<open>kcalloc(n, sizeof(struct sample_ops), GFP_KERNEL)\<close> is a null pointer when the
  allocation fails, else the fresh address of \<open>n\<close> zeroed elements. When it fails is
  the host's choice; a count too large for the allocator is one of the failures. A
  count of 0 can succeed: the pointer is then not null and the array is empty.
\<close>

definition kcalloc :: "env \<Rightarrow> u64 \<Rightarrow> kernel \<Rightarrow> nat option \<times> kernel" where
  "kcalloc e n k =
     (let k1 = k\<lparr>nalloc := nalloc k + 1\<rparr> in
      if kcalloc_fails e (nalloc k) then (None, k1)
      else (Some (brk k),
            k1\<lparr>heap := (heap k)(brk k \<mapsto> replicate (unat n) zeroed_ops),
               brk := brk k + 1\<rparr>))"

text \<open>
  Modelled from the spec: the host's allocator. \<open>kfree\<close> of a non-null pointer gives
  the array back; freeing what is not allocated is a fault.
\<close>

definition kfree :: "nat \<Rightarrow> kernel \<Rightarrow> fault + kernel" where
  "kfree a k =
     (case heap k a of
        None \<Rightarrow> Inl Bad_pointer
      | Some arr \<Rightarrow> Inr (k\<lparr>heap := (heap k)(a := None)\<rparr>))"

text \<open>Reading and writing \<open>ops[i]\<close> through the pointer \<open>a\<close>.\<close>

definition ops_read :: "nat \<Rightarrow> nat \<Rightarrow> kernel \<Rightarrow> fault + sample_ops" where
  "ops_read a i k =
     (case heap k a of
        None \<Rightarrow> Inl Bad_pointer
      | Some arr \<Rightarrow> if i < length arr then Inr (arr ! i) else Inl Out_of_bounds)"

definition ops_modify ::
  "nat \<Rightarrow> nat \<Rightarrow> (sample_ops \<Rightarrow> sample_ops) \<Rightarrow> kernel \<Rightarrow> fault + kernel" where
  "ops_modify a i f k =
     (case heap k a of
        None \<Rightarrow> Inl Bad_pointer
      | Some arr \<Rightarrow>
          if i < length arr then Inr (k\<lparr>heap := (heap k)(a \<mapsto> arr[i := f (arr ! i)])\<rparr>)
          else Inl Out_of_bounds)"

text \<open>
  Modelled from the spec: the host's \<open>WARN_ON_ONCE(cond)\<close>, at a source line: a
  warning event when the condition holds (every time: that the kernel prints only the
  first warning of a line is left out).
\<close>

definition WARN_ON_ONCE :: "nat \<Rightarrow> bool \<Rightarrow> kernel \<Rightarrow> kernel" where
  "WARN_ON_ONCE line cond k =
     (if cond then k\<lparr>events := events k @ [Warn_on_once line]\<rparr> else k)"

text \<open>
  Modelled from the spec: the host's \<open>pr_info\<close> and \<open>pr_warn\<close>: the message, with
  its arguments, as an event.
\<close>

definition pr :: "event \<Rightarrow> kernel \<Rightarrow> kernel" where
  "pr ev k = k\<lparr>events := events k @ [ev]\<rparr>"

text \<open>
  Modelled from the spec: the ftrace registration API (\<open>linux/ftrace.h\<close>), a black
  box to the module. \<open>ftrace_set_filter_ip(&ops[i].ops, tracee, 0, 0)\<close> either fails,
  returning non-zero (\<open>True\<close>) and leaving the op as it was, or attaches the op to
  the one function given.
\<close>

definition ftrace_set_filter_ip ::
  "env \<Rightarrow> nat \<Rightarrow> nat \<Rightarrow> tracee \<Rightarrow> kernel \<Rightarrow> fault + (bool \<times> kernel)" where
  "ftrace_set_filter_ip e a i t k =
     (let k1 = k\<lparr>nftrace := nftrace k + 1\<rparr> in
      if ftrace_fails e (nftrace k) then Inr (True, k1)
      else case ops_modify a i (\<lambda>s. s\<lparr>ops := (ops s)\<lparr>filter_ip := Some t\<rparr>\<rparr>) k1 of
             Inl x \<Rightarrow> Inl x
           | Inr k2 \<Rightarrow> Inr (False, k2))"

text \<open>
  Modelled from the spec: the ftrace registration API.
  \<open>register_ftrace_function(&ops[i].ops)\<close> either fails, returning non-zero and
  leaving the op as it was, or registers the op.
\<close>

definition register_ftrace_function ::
  "env \<Rightarrow> nat \<Rightarrow> nat \<Rightarrow> kernel \<Rightarrow> fault + (bool \<times> kernel)" where
  "register_ftrace_function e a i k =
     (let k1 = k\<lparr>nftrace := nftrace k + 1\<rparr> in
      if ftrace_fails e (nftrace k) then Inr (True, k1)
      else case ops_modify a i (\<lambda>s. s\<lparr>ops := (ops s)\<lparr>enabled := True\<rparr>\<rparr>) k1 of
             Inl x \<Rightarrow> Inl x
           | Inr k2 \<Rightarrow> Inr (False, k2))"

text \<open>
  Modelled from the spec: the ftrace registration API.
  \<open>unregister_ftrace_function(&ops[i].ops)\<close> takes a registered op out of ftrace and
  fails, returning non-zero, on an op that is not registered.
\<close>

definition unregister_ftrace_function ::
  "nat \<Rightarrow> nat \<Rightarrow> kernel \<Rightarrow> fault + (bool \<times> kernel)" where
  "unregister_ftrace_function a i k =
     (case ops_read a i k of
        Inl x \<Rightarrow> Inl x
      | Inr s \<Rightarrow>
          if enabled (ops s) then
            (case ops_modify a i (\<lambda>r. r\<lparr>ops := (ops r)\<lparr>enabled := False\<rparr>\<rparr>) k of
               Inl x \<Rightarrow> Inl x
             | Inr k1 \<Rightarrow> Inr (False, k1))
          else Inr (True, k))"

text \<open>
  Modelled from the spec: the ftrace registration API.
  \<open>ftrace_free_filter(&ops[i].ops)\<close> drops the op's filter.
\<close>

definition ftrace_free_filter :: "nat \<Rightarrow> nat \<Rightarrow> kernel \<Rightarrow> fault + kernel" where
  "ftrace_free_filter a i k =
     ops_modify a i (\<lambda>s. s\<lparr>ops := (ops s)\<lparr>filter_ip := None\<rparr>\<rparr>) k"

text \<open>
  Modelled from the spec: the host's clock (\<open>linux/ktime.h\<close>), the wall-clock time
  the module measures with. \<open>ktime_get()\<close> is the next reading, a 64-bit count of
  nanoseconds.
\<close>

definition ktime_get :: "env \<Rightarrow> kernel \<Rightarrow> u64 \<times> kernel" where
  "ktime_get e k =
     (clock e (nclock k), k\<lparr>nclock := nclock k + 1, events := events k @ [Ktime_get]\<rparr>)"

text \<open>Modelled from the spec: \<open>ktime_sub(lhs, rhs)\<close> of \<open>linux/ktime.h\<close>, the difference.\<close>

definition ktime_sub :: "u64 \<Rightarrow> u64 \<Rightarrow> u64" where
  "ktime_sub lhs rhs = lhs - rhs"

text \<open>
  Modelled from the spec: \<open>ktime_to_ns(kt)\<close> of \<open>linux/ktime.h\<close>, the nanoseconds
  of a \<open>ktime_t\<close>, which is a count of nanoseconds.
\<close>

definition ktime_to_ns :: "u64 \<Rightarrow> u64" where
  "ktime_to_ns kt = kt"

text \<open>
  Modelled from the spec: \<open>div_u64(dividend, divisor)\<close> of \<open>linux/math64.h\<close>, the
  unsigned division of a 64-bit dividend by a 32-bit divisor. C leaves the division by
  zero undefined: it is \<open>None\<close> here.
\<close>

definition div_u64 :: "u64 \<Rightarrow> u32 \<Rightarrow> u64 option" where
  "div_u64 dividend divisor =
     (if divisor = 0 then None else Some (dividend div ucast divisor))"

section \<open>The module's functions\<close>

text \<open>
  Modelled from the spec: \<open>barrier()\<close> of the compiler headers, which only keeps the
  compiler from moving or dropping code: no state changes.
\<close>

definition barrier :: "module \<times> kernel \<Rightarrow> module \<times> kernel" where
  "barrier s = s"

definition tracee_relevant :: "module \<times> kernel \<Rightarrow> module \<times> kernel" where
  "tracee_relevant s = barrier s"

definition tracee_irrelevant :: "module \<times> kernel \<Rightarrow> module \<times> kernel" where
  "tracee_irrelevant s = barrier s"

text \<open>
  The callbacks take \<open>ip\<close>, \<open>parent_ip\<close>, \<open>op\<close> and \<open>fregs\<close> and use \<open>op\<close> alone,
  to reach the \<open>sample_ops\<close> that contains it (\<open>container_of\<close>): they are functions
  of that \<open>sample_ops\<close>.
\<close>

definition ops_func_nop :: "sample_ops \<Rightarrow> sample_ops" where
  "ops_func_nop self = self"

definition ops_func_count :: "sample_ops \<Rightarrow> sample_ops" where
  "ops_func_count self = self\<lparr>count := count self + 1\<rparr>"

text \<open>
  Modelled from the spec: the host's ftrace core, by which tracer callbacks are
  attached to a traced function. A registered op is attached to the function its
  filter names, and to every function when it has no filter.
\<close>

definition ftrace_traces :: "sample_ops \<Rightarrow> tracee \<Rightarrow> bool" where
  "ftrace_traces s t =
     (enabled (ops s) \<and> (filter_ip (ops s) = None \<or> filter_ip (ops s) = Some t))"

text \<open>
  Modelled from the spec: the host's ftrace core. On the entry of a function it calls
  the callback of an op attached to that function, with the op for argument.
\<close>

definition ftrace_invoke :: "tracee \<Rightarrow> sample_ops \<Rightarrow> sample_ops" where
  "ftrace_invoke t s =
     (if ftrace_traces s t then
        (case func (ops s) of
           None \<Rightarrow> s
         | Some Ops_func_nop \<Rightarrow> ops_func_nop s
         | Some Ops_func_count \<Rightarrow> ops_func_count s)
      else s)"

text \<open>
  Modelled from the spec: the host's ftrace core. The entry of a traced function runs
  the callbacks of all the ops in the kernel's memory that are attached to it.
\<close>

definition ftrace_entry :: "tracee \<Rightarrow> kernel \<Rightarrow> kernel" where
  "ftrace_entry t k =
     k\<lparr>heap := (\<lambda>a. map_option (map (ftrace_invoke t)) (heap k a)),
       events := events k @ [Call t]\<rparr>"

text \<open>A call of \<open>tracee_relevant()\<close>: the traced entry, then the body.\<close>

definition call_tracee_relevant :: "module \<times> kernel \<Rightarrow> module \<times> kernel" where
  "call_tracee_relevant s = tracee_relevant (fst s, ftrace_entry Tracee_relevant (snd s))"

text \<open>
  The loop \<open>for (unsigned int i = 0; i < nr; i++) body\<close> of the source, from a
  current \<open>i\<close>; a fault in the body ends it.
\<close>

function for_u32 ::
  "(u32 \<Rightarrow> 's \<Rightarrow> fault + 's) \<Rightarrow> u32 \<Rightarrow> u32 \<Rightarrow> 's \<Rightarrow> fault + 's" where
  "for_u32 body nr i s =
     (if i < nr then
        (case body i s of
           Inl x \<Rightarrow> Inl x
         | Inr s' \<Rightarrow> for_u32 body nr (i + 1) s')
      else Inr s)"
  by pat_completeness auto
termination
proof (relation "measure (\<lambda>(body, nr, i, s). unat nr - unat i)")
  show "wf (measure (\<lambda>(body :: u32 \<Rightarrow> 's \<Rightarrow> fault + 's, nr, i, s). unat nr - unat i))"
    by simp
next
  fix body :: "u32 \<Rightarrow> 's \<Rightarrow> fault + 's" and nr i :: u32 and s s' :: 's
  assume "i < nr"
  then have lt: "unat i < unat nr"
    by (simp add: word_less_nat_alt)
  have "unat nr < 2 ^ 32"
    using unsigned_less [of nr] by simp
  with lt have "unat i + unat (1 :: u32) < 2 ^ LENGTH(32)"
    by simp
  then have "unat (i + 1) = unat i + unat (1 :: u32)"
    by (simp only: unat_add_lem [THEN iffD1])
  with lt show "((body, nr, i + 1, s'), (body, nr, i, s))
      \<in> measure (\<lambda>(body, nr, i, s). unat nr - unat i)"
    by simp
qed

text \<open>The body of the loop of \<open>ops_alloc_init\<close> (lines 130-133), on \<open>ops[i]\<close>.\<close>

definition ops_alloc_init_body ::
  "env \<Rightarrow> nat \<Rightarrow> tracee \<Rightarrow> ftrace_func \<Rightarrow> u64 \<Rightarrow> u32 \<Rightarrow> kernel \<Rightarrow> fault + kernel" where
  "ops_alloc_init_body e a tracee fn fl i k =
     (case ops_modify a (unat i) (\<lambda>s. s\<lparr>ops := (ops s)\<lparr>func := Some fn\<rparr>\<rparr>) k of
        Inl x \<Rightarrow> Inl x
      | Inr k1 \<Rightarrow>
     (case ops_modify a (unat i) (\<lambda>s. s\<lparr>ops := (ops s)\<lparr>flags := fl\<rparr>\<rparr>) k1 of
        Inl x \<Rightarrow> Inl x
      | Inr k2 \<Rightarrow>
     (case ftrace_set_filter_ip e a (unat i) tracee k2 of
        Inl x \<Rightarrow> Inl x
      | Inr (r3, k3) \<Rightarrow>
     (case register_ftrace_function e a (unat i) (WARN_ON_ONCE 132 r3 k3) of
        Inl x \<Rightarrow> Inl x
      | Inr (r4, k4) \<Rightarrow> Inr (WARN_ON_ONCE 133 r4 k4)))))"

text \<open>
  \<open>ops_alloc_init(tracee, func, flags, nr)\<close> (lines 120-137). \<open>nr\<close> is an \<open>int\<close>:
  \<open>kcalloc\<close> takes it converted to \<open>size_t\<close> (sign extended), the loop compares
  the \<open>unsigned int i\<close> with it converted to \<open>unsigned int\<close>.
\<close>

definition ops_alloc_init ::
  "env \<Rightarrow> tracee \<Rightarrow> ftrace_func \<Rightarrow> u64 \<Rightarrow> u32 \<Rightarrow> kernel \<Rightarrow> fault + (nat option \<times> kernel)" where
  "ops_alloc_init e tracee fn fl nr k =
     (case kcalloc e (scast nr) k of
        (None, k1) \<Rightarrow> Inr (None, WARN_ON_ONCE 126 True k1)
      | (Some a, k1) \<Rightarrow>
          (case for_u32 (ops_alloc_init_body e a tracee fn fl) nr 0 k1 of
             Inl x \<Rightarrow> Inl x
           | Inr k2 \<Rightarrow> Inr (Some a, k2)))"

text \<open>\<open>ops_destroy(ops, nr)\<close> (lines 139-150) and the body of its loop.\<close>

definition ops_destroy_body :: "nat \<Rightarrow> u32 \<Rightarrow> kernel \<Rightarrow> fault + kernel" where
  "ops_destroy_body a i k =
     (case unregister_ftrace_function a (unat i) k of
        Inl x \<Rightarrow> Inl x
      | Inr (r, k1) \<Rightarrow> ftrace_free_filter a (unat i) (WARN_ON_ONCE 145 r k1))"

definition ops_destroy :: "nat option \<Rightarrow> u32 \<Rightarrow> kernel \<Rightarrow> fault + kernel" where
  "ops_destroy p nr k =
     (case p of
        None \<Rightarrow> Inr k
      | Some a \<Rightarrow>
          (case for_u32 (ops_destroy_body a) nr 0 k of
             Inl x \<Rightarrow> Inl x
           | Inr k1 \<Rightarrow> kfree a k1))"

text \<open>
  \<open>ops_check(ops, nr, expected_count)\<close> (lines 152-164) and the body of its loop,
  which reads \<open>ops->count\<close>, the count of the first element, at every \<open>i\<close>.
\<close>

definition ops_check_body :: "nat \<Rightarrow> u32 \<Rightarrow> u32 \<Rightarrow> kernel \<Rightarrow> fault + kernel" where
  "ops_check_body a expected_count i k =
     (case ops_read a 0 k of
        Inl x \<Rightarrow> Inl x
      | Inr s \<Rightarrow>
          if count s = expected_count then Inr k
          else Inr (pr (Pr_warn_counter (count s) expected_count) k))"

definition ops_check :: "module \<Rightarrow> nat option \<Rightarrow> u32 \<Rightarrow> u32 \<Rightarrow> kernel \<Rightarrow> fault + kernel" where
  "ops_check m p nr expected_count k =
     (case p of
        None \<Rightarrow> Inr k
      | Some a \<Rightarrow>
          if \<not> check_count m then Inr k
          else for_u32 (ops_check_body a expected_count) nr 0 k)"

section \<open>Module initialisation and exit\<close>

text \<open>
  \<open>ftrace_ops_sample_init\<close> (lines 169-240) in its five steps. Lines 171-191: the
  flags word and the choice of the tracers.
\<close>

fun init_flags :: "env \<Rightarrow> module \<times> kernel \<Rightarrow> u64 \<times> module \<times> kernel" where
  "init_flags e (m, k) =
     (let fl0 = (0 :: u64);
          (fl1, m1, k1) =
            (if \<not> CONFIG_DYNAMIC_FTRACE_WITH_REGS e \<and> save_regs m
             then (fl0, m\<lparr>save_regs := False\<rparr>, pr Pr_info_no_save_regs k)
             else if save_regs m then (fl0 OR FTRACE_OPS_FL_SAVE_REGS e, m, k)
             else (fl0, m, k));
          fl2 = (if assist_recursion m1 then fl1 OR FTRACE_OPS_FL_RECURSION e else fl1);
          fl3 = (if assist_rcu m1 then fl2 OR FTRACE_OPS_FL_RCU e else fl2);
          m2 = (if check_count m1
                then m1\<lparr>tracer_relevant := Ops_func_count,
                        tracer_irrelevant := Ops_func_count\<rparr>
                else m1)
      in (fl3, m2, k1))"

text \<open>Lines 193-212: the announcement and the two arrays of ops.\<close>

fun init_register :: "env \<Rightarrow> u64 \<Rightarrow> module \<times> kernel \<Rightarrow> fault + module \<times> kernel" where
  "init_register e fl (m, k) =
     (let k1 = pr (Pr_info_registering (nr_ops_relevant m) (tracer_relevant m)
                     (nr_ops_irrelevant m) (tracer_irrelevant m)
                     (save_regs m) (assist_recursion m) (assist_rcu m)) k
      in case ops_alloc_init e Tracee_relevant (tracer_relevant m) fl (nr_ops_relevant m) k1 of
           Inl x \<Rightarrow> Inl x
         | Inr (p, k2) \<Rightarrow>
             (let m1 = m\<lparr>ops_relevant := p\<rparr>
              in (case ops_alloc_init e Tracee_irrelevant (tracer_irrelevant m1) fl
                         (nr_ops_irrelevant m1) k2 of
                    Inl x \<Rightarrow> Inl x
                  | Inr (q, k3) \<Rightarrow> Inr (m1\<lparr>ops_irrelevant := q\<rparr>, k3))))"

text \<open>Lines 214-217: the timed loop. The result carries \<open>start\<close> and \<open>end\<close>.\<close>

fun init_measure :: "env \<Rightarrow> module \<times> kernel \<Rightarrow> fault + u64 \<times> u64 \<times> module \<times> kernel" where
  "init_measure e (m, k) =
     (let (start, k1) = ktime_get e k
      in case for_u32 (\<lambda>i s. Inr (call_tracee_relevant s)) (nr_function_calls m) 0 (m, k1) of
           Inl x \<Rightarrow> Inl x
         | Inr (m2, k2) \<Rightarrow>
             let (fin, k3) = ktime_get e k2 in Inr (start, fin, m2, k3))"

text \<open>Lines 219-220: the two consistency checks.\<close>

fun init_check :: "module \<times> kernel \<Rightarrow> fault + module \<times> kernel" where
  "init_check (m, k) =
     (case ops_check m (ops_relevant m) (nr_ops_relevant m) (nr_function_calls m) k of
        Inl x \<Rightarrow> Inl x
      | Inr k1 \<Rightarrow>
          (case ops_check m (ops_irrelevant m) (nr_ops_irrelevant m) 0 k1 of
             Inl x \<Rightarrow> Inl x
           | Inr k2 \<Rightarrow> Inr (m, k2)))"

text \<open>Lines 222-226: the period and the report.\<close>

definition init_period :: "u64 \<Rightarrow> u64 \<Rightarrow> u64" where
  "init_period start fin = ktime_to_ns (ktime_sub fin start)"

fun init_report :: "u64 \<Rightarrow> u64 \<Rightarrow> module \<times> kernel \<Rightarrow> fault + module \<times> kernel" where
  "init_report start fin (m, k) =
     (let period = init_period start fin
      in case div_u64 period (nr_function_calls m) of
           None \<Rightarrow> Inl Divide_error
         | Some per_call \<Rightarrow>
             Inr (m, pr (Pr_info_attempted (nr_function_calls m) period per_call) k))"

text \<open>Lines 228-239: the return value, after the teardown unless \<open>persist\<close> is set.\<close>

fun init_finish :: "module \<times> kernel \<Rightarrow> fault + int \<times> module \<times> kernel" where
  "init_finish (m, k) =
     (if persist m then Inr (0, m, k)
      else case ops_destroy (ops_relevant m) (nr_ops_relevant m) k of
             Inl x \<Rightarrow> Inl x
           | Inr k1 \<Rightarrow>
               (case ops_destroy (ops_irrelevant m) (nr_ops_irrelevant m) k1 of
                  Inl x \<Rightarrow> Inl x
                | Inr k2 \<Rightarrow> Inr (- EINVAL, m, k2)))"

definition ftrace_ops_sample_init ::
  "env \<Rightarrow> module \<times> kernel \<Rightarrow> fault + int \<times> module \<times> kernel" where
  "ftrace_ops_sample_init e s =
     (case init_flags e s of (fl, s1) \<Rightarrow>
     (case init_register e fl s1 of Inl x \<Rightarrow> Inl x | Inr s2 \<Rightarrow>
     (case init_measure e s2 of Inl x \<Rightarrow> Inl x | Inr (start, fin, s3) \<Rightarrow>
     (case init_check s3 of Inl x \<Rightarrow> Inl x | Inr s4 \<Rightarrow>
     (case init_report start fin s4 of Inl x \<Rightarrow> Inl x | Inr s5 \<Rightarrow>
      init_finish s5)))))"

text \<open>\<open>ftrace_ops_sample_exit\<close> (lines 243-247).\<close>

fun ftrace_ops_sample_exit :: "module \<times> kernel \<Rightarrow> fault + module \<times> kernel" where
  "ftrace_ops_sample_exit (m, k) =
     (case ops_destroy (ops_relevant m) (nr_ops_relevant m) k of
        Inl x \<Rightarrow> Inl x
      | Inr k1 \<Rightarrow>
          (case ops_destroy (ops_irrelevant m) (nr_ops_irrelevant m) k1 of
             Inl x \<Rightarrow> Inl x
           | Inr k2 \<Rightarrow> Inr (m, k2)))"

text \<open>
  The module as the loader hands it to \<open>ftrace_ops_sample_init\<close>: the static
  initialisers of lines 117-118 and 166-167.
\<close>

definition at_load :: "module \<Rightarrow> bool" where
  "at_load m =
     (ops_relevant m = None \<and> ops_irrelevant m = None \<and>
      tracer_relevant m = Ops_func_nop \<and> tracer_irrelevant m = Ops_func_nop)"

section \<open>Predicates and inputs for the statements\<close>

text \<open>
  What one iteration of the loop of \<open>ops_alloc_init\<close> makes of \<open>ops[i]\<close>, when
  \<open>n\<close> ftrace requests were made before it: the filter and the registration take
  effect unless the host refuses the request.
\<close>

definition registered_ops :: "env \<Rightarrow> tracee \<Rightarrow> ftrace_func \<Rightarrow> u64 \<Rightarrow> nat \<Rightarrow> sample_ops \<Rightarrow> sample_ops" where
  "registered_ops e t fn fl n s =
     s\<lparr>ops := (ops s)\<lparr>func := Some fn, flags := fl,
          filter_ip := (if ftrace_fails e n then filter_ip (ops s) else Some t),
          enabled := (if ftrace_fails e (n + 1) then enabled (ops s) else True)\<rparr>\<rparr>"

text \<open>
  A pointer is usable with a count when it is null or points to a live array of at
  least that many elements. The two pointers of the module are in order when both are
  usable with their counts and they are not the same array.
\<close>

definition valid_ops :: "kernel \<Rightarrow> nat option \<Rightarrow> u32 \<Rightarrow> bool" where
  "valid_ops k p nr =
     (case p of
        None \<Rightarrow> True
      | Some a \<Rightarrow> (case heap k a of None \<Rightarrow> False | Some arr \<Rightarrow> unat nr \<le> length arr))"

definition ptrs_ok :: "module \<times> kernel \<Rightarrow> bool" where
  "ptrs_ok s =
     (valid_ops (snd s) (ops_relevant (fst s)) (nr_ops_relevant (fst s)) \<and>
      valid_ops (snd s) (ops_irrelevant (fst s)) (nr_ops_irrelevant (fst s)) \<and>
      (ops_relevant (fst s) = None \<or> ops_relevant (fst s) \<noteq> ops_irrelevant (fst s)))"

text \<open>An array of which the first \<open>j\<close> elements went through the loop.\<close>

definition partly_registered ::
  "env \<Rightarrow> tracee \<Rightarrow> ftrace_func \<Rightarrow> u64 \<Rightarrow> nat \<Rightarrow> nat \<Rightarrow> sample_ops list \<Rightarrow> sample_ops list" where
  "partly_registered e t fn fl n0 j arr =
     map (\<lambda>x. if x < j then registered_ops e t fn fl (n0 + 2 * x) (arr ! x) else arr ! x)
       [0..<length arr]"

text \<open>An op as the loop leaves it when the host accepts both requests.\<close>

definition registered_op :: "tracee \<Rightarrow> ftrace_func \<Rightarrow> u64 \<Rightarrow> sample_ops" where
  "registered_op t fn fl =
     \<lparr>ops = \<lparr>func = Some fn, flags = fl, filter_ip = Some t, enabled = True\<rparr>, count = 0\<rparr>"

text \<open>
  A flag is set in a flags word when they share a bit. The three flag constants are
  taken to be non-zero and pairwise disjoint, as distinct bits are.
\<close>

definition has_flag :: "u64 \<Rightarrow> u64 \<Rightarrow> bool" where
  "has_flag w f = (w AND f \<noteq> 0)"

definition flag_bits_ok :: "env \<Rightarrow> bool" where
  "flag_bits_ok e =
     (FTRACE_OPS_FL_SAVE_REGS e \<noteq> 0 \<and> FTRACE_OPS_FL_RECURSION e \<noteq> 0 \<and>
      FTRACE_OPS_FL_RCU e \<noteq> 0 \<and>
      FTRACE_OPS_FL_SAVE_REGS e AND FTRACE_OPS_FL_RECURSION e = 0 \<and>
      FTRACE_OPS_FL_SAVE_REGS e AND FTRACE_OPS_FL_RCU e = 0 \<and>
      FTRACE_OPS_FL_RECURSION e AND FTRACE_OPS_FL_RCU e = 0)"

text \<open>
  Concrete inputs: a host in which nothing fails, with bits 2, 4 and 14 for the three
  flag constants and a clock that advances by 1000 ns per reading; the module with
  the default values of its parameters and its static initialisers; a kernel that holds
  no \<open>sample_ops\<close> yet.
\<close>

definition example_env :: env where
  "example_env =
     \<lparr>CONFIG_DYNAMIC_FTRACE_WITH_REGS = True,
      FTRACE_OPS_FL_SAVE_REGS = 4, FTRACE_OPS_FL_RECURSION = 16, FTRACE_OPS_FL_RCU = 16384,
      kcalloc_fails = (\<lambda>n. False), ftrace_fails = (\<lambda>n. False),
      clock = (\<lambda>n. 1000 * of_nat n)\<rparr>"

definition default_module :: module where
  "default_module =
     \<lparr>nr_function_calls = 100000, nr_ops_relevant = 1, nr_ops_irrelevant = 0,
      save_regs = False, assist_recursion = False, assist_rcu = False,
      check_count = False, persist = False,
      ops_relevant = None, ops_irrelevant = None,
      tracer_relevant = Ops_func_nop, tracer_irrelevant = Ops_func_nop\<rparr>"

definition boot_kernel :: kernel where
  "boot_kernel = \<lparr>heap = (\<lambda>a. None), brk = 0, events = [], nalloc = 0, nftrace = 0, nclock = 0\<rparr>"

text \<open>
  The first \<open>nr\<close> elements of the array behind a pointer all have the given callback
  and flags word (nothing is asked of a null pointer).
\<close>

definition ops_carry :: "kernel \<Rightarrow> nat option \<Rightarrow> u32 \<Rightarrow> ftrace_func \<Rightarrow> u64 \<Rightarrow> bool" where
  "ops_carry k p nr fn fl =
     (case p of
        None \<Rightarrow> True
      | Some a \<Rightarrow>
          (case heap k a of
             None \<Rightarrow> False
           | Some arr \<Rightarrow>
               unat nr \<le> length arr \<and>
               (\<forall>s \<in> set (take (unat nr) arr). func (ops s) = Some fn \<and> flags (ops s) = fl)))"

text \<open>A host in which the first allocation fails, and nothing else does.\<close>

definition first_alloc_fails_env :: env where
  "first_alloc_fails_env = example_env\<lparr>kcalloc_fails := (\<lambda>n. n = 0)\<rparr>"

text \<open>Every element of the array behind a pointer has a count of 0.\<close>

definition counts_zero :: "kernel \<Rightarrow> nat option \<Rightarrow> bool" where
  "counts_zero k p =
     (case p of
        None \<Rightarrow> True
      | Some a \<Rightarrow>
          (case heap k a of
             None \<Rightarrow> False
           | Some arr \<Rightarrow> (\<forall>s \<in> set arr. count s = 0)))"

text \<open>
  Every registered op of the array behind a pointer is attached to the one function
  given, and to no other.
\<close>

definition attached_only :: "kernel \<Rightarrow> nat option \<Rightarrow> tracee \<Rightarrow> bool" where
  "attached_only k p t =
     (case p of
        None \<Rightarrow> True
      | Some a \<Rightarrow>
          (case heap k a of
             None \<Rightarrow> False
           | Some arr \<Rightarrow> (\<forall>s \<in> set arr. enabled (ops s) \<longrightarrow> filter_ip (ops s) = Some t)))"

text \<open>
  The host numbers the ftrace requests in the order they are made. The registration
  step makes two for each op it initialises, \<open>ftrace_set_filter_ip\<close> and then
  \<open>register_ftrace_function\<close>, for the relevant array first when that array was
  allocated. This is the number of the \<open>ftrace_set_filter_ip\<close> request for element
  \<open>i\<close> of the irrelevant array, in a registration step that starts from the state given.
\<close>

definition irrelevant_filter_request :: "env \<Rightarrow> module \<times> kernel \<Rightarrow> nat \<Rightarrow> nat" where
  "irrelevant_filter_request e s i =
     nftrace (snd s)
       + (if kcalloc_fails e (nalloc (snd s)) then 0 else 2 * unat (nr_ops_relevant (fst s)))
       + 2 * i"

text \<open>
  A host that refuses the third ftrace request and nothing else, and the module loaded
  with \<open>nr_function_calls=3 nr_ops_irrelevant=1 check_count=1\<close>: the third request
  is then the \<open>ftrace_set_filter_ip\<close> of the one irrelevant op.
\<close>

definition filter_refused_env :: env where
  "filter_refused_env = example_env\<lparr>ftrace_fails := (\<lambda>n. n = 2)\<rparr>"

definition counting_module :: module where
  "counting_module =
     default_module\<lparr>nr_function_calls := 3, nr_ops_irrelevant := 1, check_count := True\<rparr>"

section \<open>The counting loop, memory and the steps of initialisation\<close>

subsection \<open>The counting loop\<close>

declare for_u32.simps [simp del]

lemma unat_incr_u32: "(i::u32) < nr \<Longrightarrow> unat (i + 1) = Suc (unat i)"
proof -
  assume "i < nr"
  then have lt: "unat i < unat nr"
    by (simp add: word_less_nat_alt)
  have "unat nr < 2 ^ 32"
    using unsigned_less [of nr] by simp
  with lt have "unat i + unat (1 :: u32) < 2 ^ LENGTH(32)"
    by simp
  then have "unat (i + 1) = unat i + unat (1 :: u32)"
    by (simp only: unat_add_lem [THEN iffD1])
  then show ?thesis by simp
qed

lemma for_u32_step:
  "i < nr \<Longrightarrow> body i s = Inr s' \<Longrightarrow> for_u32 body nr i s = for_u32 body nr (i + 1) s'"
  by (subst for_u32.simps) simp

lemma for_u32_done: "\<not> i < nr \<Longrightarrow> for_u32 body nr i s = Inr s"
  by (subst for_u32.simps) simp

text \<open>Total correctness of the loop from an invariant indexed by the iteration.\<close>

lemma for_u32_invariant:
  assumes "I (unat i) s" and "i \<le> nr"
    and "\<And>j t. j < nr \<Longrightarrow> I (unat j) t \<Longrightarrow> \<exists>t'. body j t = Inr t' \<and> I (Suc (unat j)) t'"
  shows "\<exists>s'. for_u32 body nr i s = Inr s' \<and> I (unat nr) s'"
  using assms(1,2)
proof (induction "unat nr - unat i" arbitrary: i s)
  case 0
  then have "\<not> i < nr"
    by (simp add: word_less_nat_alt)
  with "0.prems" have "i = nr" by simp
  with "0.prems" show ?case by (simp add: for_u32_done)
next
  case (Suc n)
  then have lt: "i < nr"
    by (simp add: word_less_nat_alt)
  from assms(3) [OF lt Suc.prems(1)] obtain t'
    where b: "body i s = Inr t'" and inv: "I (Suc (unat i)) t'" by blast
  have u: "unat (i + 1) = Suc (unat i)"
    by (rule unat_incr_u32 [OF lt])
  have le: "i + 1 \<le> nr"
    using lt u by (simp add: word_le_nat_alt word_less_nat_alt)
  have "n = unat nr - unat (i + 1)"
    using Suc.hyps(2) u by simp
  from Suc.hyps(1) [OF this _ le] inv u
  have "\<exists>s'. for_u32 body nr (i + 1) t' = Inr s' \<and> I (unat nr) s'" by simp
  moreover have "for_u32 body nr i s = for_u32 body nr (i + 1) t'"
    using lt b by (rule for_u32_step)
  ultimately show ?case by simp
qed

lemma for_u32_from_0:
  assumes "I 0 s"
    and "\<And>j t. j < nr \<Longrightarrow> I (unat j) t \<Longrightarrow> \<exists>t'. body j t = Inr t' \<and> I (Suc (unat j)) t'"
  shows "\<exists>s'. for_u32 body nr 0 s = Inr s' \<and> I (unat nr) s'"
  using for_u32_invariant [of I 0 s nr body] assms by simp

lemma for_u32_funpow: "for_u32 (\<lambda>i s. Inr (f s)) nr 0 s = Inr ((f ^^ unat nr) s)"
proof -
  have "\<exists>s'. for_u32 (\<lambda>i s. Inr (f s)) nr 0 s = Inr s' \<and> s' = (f ^^ unat nr) s"
    by (rule for_u32_from_0 [where I = "\<lambda>j t. t = (f ^^ j) s"]) simp_all
  then show ?thesis by simp
qed

subsection \<open>The loop of \<open>ops_alloc_init\<close>, one iteration\<close>

lemma ops_alloc_init_body_ok:
  assumes "heap k a = Some arr" and "unat i < length arr"
  shows "ops_alloc_init_body e a t fn fl i k =
     Inr (k\<lparr>heap := (heap k)(a \<mapsto> arr[unat i := registered_ops e t fn fl (nftrace k) (arr ! unat i)]),
           nftrace := nftrace k + 2,
           events := events k @ (if ftrace_fails e (nftrace k) then [Warn_on_once 132] else [])
                      @ (if ftrace_fails e (nftrace k + 1) then [Warn_on_once 133] else [])\<rparr>)"
  using assms
  by (simp add: ops_alloc_init_body_def ops_modify_def ftrace_set_filter_ip_def
      register_ftrace_function_def WARN_ON_ONCE_def registered_ops_def Let_def)

lemma valid_ops_None [simp]: "valid_ops k None nr"
  by (simp add: valid_ops_def)

lemma valid_ops_Some:
  "valid_ops k (Some a) nr = (\<exists>arr. heap k a = Some arr \<and> unat nr \<le> length arr)"
  by (cases "heap k a") (simp_all add: valid_ops_def)

lemma unat_less_u32: "(j::u32) < nr \<Longrightarrow> unat j < unat nr"
  by (simp add: word_less_nat_alt)

text \<open>An \<open>int\<close> and the \<open>unsigned int\<close> of the same bits; the \<open>size_t\<close> of an \<open>int\<close>.\<close>

lemma sint_u32_cases: "sint (x::u32) = uint x \<or> sint x = uint x - 2 ^ 32"
proof -
  have "sint x = take_bit 32 (uint x) - 2 ^ 32 * of_bool (bit (uint x) 31)"
    by (simp add: sint_uint signed_take_bit_eq_take_bit_minus)
  moreover have "take_bit 32 (uint x) = uint x"
    by (simp add: take_bit_int_eq_self_iff uint_bounded [of x, simplified])
  ultimately show ?thesis
    by (cases "bit (uint x) 31") simp_all
qed

lemma unat_of_positive_int: "1 \<le> sint (x::u32) \<Longrightarrow> unat x = nat (sint x)"
proof -
  assume "1 \<le> sint x"
  moreover have "uint x < 2 ^ 32"
    using uint_bounded [of x] by simp
  ultimately have "sint x = uint x"
    using sint_u32_cases [of x] by auto
  then show ?thesis
    by (simp add: unat_eq_nat_uint del: nat_uint_eq)
qed

lemma unat_le_scast_u32: "unat (x::u32) \<le> unat (scast x :: u64)"
proof -
  have b: "0 \<le> uint x" "uint x < 2 ^ 32"
    using uint_bounded [of x] by simp_all
  note c = sint_u32_cases [of x]
  have u: "uint (scast x :: u64) = sint x mod 2 ^ 64"
    by (simp only: scast_eq uint_word_of_int len_of_numeral_defs) simp
  from c have "uint x \<le> sint x mod 2 ^ 64"
  proof
    assume "sint x = uint x"
    then show ?thesis using b by simp
  next
    assume s: "sint x = uint x - 2 ^ 32"
    have g: "a mod m = (a + m) mod m" for a m :: int by simp
    have "(uint x - 2 ^ 32) mod 2 ^ 64 = (uint x - 2 ^ 32 + 2 ^ 64) mod 2 ^ 64"
      by (rule g)
    also have "\<dots> = uint x - 2 ^ 32 + 2 ^ 64"
      using b by (intro mod_pos_pos_trivial) simp_all
    finally show ?thesis using s b by simp
  qed
  then have "uint x \<le> uint (scast x :: u64)" by (simp add: u)
  then show ?thesis by (simp add: unat_eq_nat_uint del: nat_uint_eq)
qed

subsection \<open>\<open>ops_destroy\<close> and \<open>ops_check\<close>\<close>

lemma ops_destroy_body_ok:
  assumes "heap k a = Some arr" and "unat i < length arr"
  shows "ops_destroy_body a i k =
     Inr (k\<lparr>heap := (heap k)(a \<mapsto> arr[unat i :=
                (arr ! unat i)\<lparr>ops := (ops (arr ! unat i))\<lparr>enabled := False, filter_ip := None\<rparr>\<rparr>]),
           events := events k @ (if enabled (ops (arr ! unat i)) then [] else [Warn_on_once 145])\<rparr>)"
proof (cases "enabled (ops (arr ! unat i))")
  case True
  with assms show ?thesis
    by (simp add: ops_destroy_body_def unregister_ftrace_function_def ftrace_free_filter_def
        ops_modify_def ops_read_def WARN_ON_ONCE_def)
next
  case False
  have eq: "(ops (arr ! unat i))\<lparr>enabled := False, filter_ip := None\<rparr>
      = (ops (arr ! unat i))\<lparr>filter_ip := None\<rparr>"
    using False by (cases "ops (arr ! unat i)") simp
  show ?thesis
    unfolding eq using assms False
    by (simp add: ops_destroy_body_def unregister_ftrace_function_def ftrace_free_filter_def
        ops_modify_def ops_read_def WARN_ON_ONCE_def)
qed

lemma ops_destroy_loop_safe:
  assumes "heap k a = Some arr" and "unat nr \<le> length arr"
  shows "\<exists>k'. for_u32 (ops_destroy_body a) nr 0 k = Inr k' \<and>
           ((\<exists>arr'. heap k' a = Some arr' \<and> length arr' = length arr \<and>
               (\<forall>x < unat nr. \<not> enabled (ops (arr' ! x)) \<and> filter_ip (ops (arr' ! x)) = None)) \<and>
            (\<forall>b. b \<noteq> a \<longrightarrow> heap k' b = heap k b))"
proof (rule for_u32_from_0
    [where I = "\<lambda>j k'. (\<exists>arr'. heap k' a = Some arr' \<and> length arr' = length arr \<and>
               (\<forall>x < j. \<not> enabled (ops (arr' ! x)) \<and> filter_ip (ops (arr' ! x)) = None)) \<and>
            (\<forall>b. b \<noteq> a \<longrightarrow> heap k' b = heap k b)"])
  show "(\<exists>arr'. heap k a = Some arr' \<and> length arr' = length arr \<and>
        (\<forall>x < 0. \<not> enabled (ops (arr' ! x)) \<and> filter_ip (ops (arr' ! x)) = None)) \<and>
      (\<forall>b. b \<noteq> a \<longrightarrow> heap k b = heap k b)"
    using assms by simp
next
  fix j :: u32 and t' :: kernel
  assume lt: "j < nr"
    and inv: "(\<exists>arr'. heap t' a = Some arr' \<and> length arr' = length arr \<and>
        (\<forall>x < unat j. \<not> enabled (ops (arr' ! x)) \<and> filter_ip (ops (arr' ! x)) = None)) \<and>
      (\<forall>b. b \<noteq> a \<longrightarrow> heap t' b = heap k b)"
  then obtain arr' where h: "heap t' a = Some arr'" and l: "length arr' = length arr"
    and d: "\<forall>x < unat j. \<not> enabled (ops (arr' ! x)) \<and> filter_ip (ops (arr' ! x)) = None"
    by blast
  have jl: "unat j < length arr'"
    using unat_less_u32 [OF lt] assms(2) l by simp
  have "\<forall>x < Suc (unat j).
      \<not> enabled (ops (arr'[unat j := (arr' ! unat j)\<lparr>ops := (ops (arr' ! unat j))
            \<lparr>enabled := False, filter_ip := None\<rparr>\<rparr>] ! x)) \<and>
      filter_ip (ops (arr'[unat j := (arr' ! unat j)\<lparr>ops := (ops (arr' ! unat j))
            \<lparr>enabled := False, filter_ip := None\<rparr>\<rparr>] ! x)) = None"
    using d jl by (simp add: nth_list_update less_Suc_eq)
  with ops_destroy_body_ok [OF h jl] inv l
  show "\<exists>t''. ops_destroy_body a j t' = Inr t'' \<and>
      ((\<exists>arr'. heap t'' a = Some arr' \<and> length arr' = length arr \<and>
          (\<forall>x < Suc (unat j). \<not> enabled (ops (arr' ! x)) \<and> filter_ip (ops (arr' ! x)) = None)) \<and>
       (\<forall>b. b \<noteq> a \<longrightarrow> heap t'' b = heap k b))"
    by simp
qed

lemma ops_destroy_safe:
  assumes "valid_ops k p nr"
  shows "\<exists>k'. ops_destroy p nr k = Inr k' \<and>
           (\<forall>b. heap k' b = (if Some b = p then None else heap k b))"
proof (cases p)
  case None
  then show ?thesis by (simp add: ops_destroy_def)
next
  case (Some a)
  with assms obtain arr where h: "heap k a = Some arr" and l: "unat nr \<le> length arr"
    by (auto simp: valid_ops_Some)
  from ops_destroy_loop_safe [OF h l] obtain k1 arr'
    where r: "for_u32 (ops_destroy_body a) nr 0 k = Inr k1"
      and h1: "heap k1 a = Some arr'"
      and f: "\<forall>b. b \<noteq> a \<longrightarrow> heap k1 b = heap k b"
    by blast
  have "ops_destroy p nr k = Inr (k1\<lparr>heap := (heap k1)(a := None)\<rparr>)"
    by (simp add: ops_destroy_def Some r kfree_def h1)
  moreover have "\<forall>b. heap (k1\<lparr>heap := (heap k1)(a := None)\<rparr>) b
      = (if Some b = p then None else heap k b)"
    using f Some by simp
  ultimately show ?thesis by simp
qed

lemma ops_check_body_ok:
  assumes "heap k a = Some arr" and "0 < length arr"
  shows "ops_check_body a expected i k =
     Inr (if count (arr ! 0) = expected then k
          else pr (Pr_warn_counter (count (arr ! 0)) expected) k)"
  using assms by (simp add: ops_check_body_def ops_read_def)

lemma ops_check_loop:
  assumes "heap k a = Some arr" and "unat nr \<le> length arr"
  shows "for_u32 (ops_check_body a expected) nr 0 k =
     Inr (k\<lparr>events := events k @
            (if count (arr ! 0) = expected then []
             else replicate (unat nr) (Pr_warn_counter (count (arr ! 0)) expected))\<rparr>)"
proof -
  let ?w = "Pr_warn_counter (count (arr ! 0)) expected"
  let ?I = "\<lambda>j k'. k' = k\<lparr>events := events k @
            (if count (arr ! 0) = expected then [] else replicate j ?w)\<rparr>"
  have "\<exists>k'. for_u32 (ops_check_body a expected) nr 0 k = Inr k' \<and> ?I (unat nr) k'"
  proof (rule for_u32_from_0 [where I = ?I])
    show "?I 0 k" by simp
  next
    fix j :: u32 and t' :: kernel
    assume lt: "j < nr" and inv: "?I (unat j) t'"
    have h: "heap t' a = Some arr"
      using inv assms(1) by simp
    have "0 < length arr"
      using unat_less_u32 [OF lt] assms(2) by (cases arr) simp_all
    from ops_check_body_ok [OF h this, of expected j] inv
    show "\<exists>t''. ops_check_body a expected j t' = Inr t'' \<and> ?I (Suc (unat j)) t''"
      by (simp add: pr_def replicate_append_same)
  qed
  then show ?thesis by simp
qed

lemma ops_check_safe:
  assumes "valid_ops k p nr"
  shows "\<exists>ev. ops_check m p nr expected k = Inr (k\<lparr>events := events k @ ev\<rparr>)"
proof (cases p)
  case None
  have "ops_check m p nr expected k = Inr (k\<lparr>events := events k @ []\<rparr>)"
    by (simp add: ops_check_def None)
  then show ?thesis by blast
next
  case (Some a)
  with assms obtain arr where h: "heap k a = Some arr" and l: "unat nr \<le> length arr"
    by (auto simp: valid_ops_Some)
  show ?thesis
  proof (cases "check_count m")
    case True
    then have "ops_check m p nr expected k = Inr (k\<lparr>events := events k @
            (if count (arr ! 0) = expected then []
             else replicate (unat nr) (Pr_warn_counter (count (arr ! 0)) expected))\<rparr>)"
      by (simp add: ops_check_def Some ops_check_loop [OF h l])
    then show ?thesis by blast
  next
    case False
    then have "ops_check m p nr expected k = Inr (k\<lparr>events := events k @ []\<rparr>)"
      by (simp add: ops_check_def Some)
    then show ?thesis by blast
  qed
qed

subsection \<open>The timed loop, the checks and the teardown\<close>

lemma ftrace_entry_funpow:
  "(ftrace_entry t ^^ n) k =
     k\<lparr>heap := (\<lambda>a. map_option (map (ftrace_invoke t ^^ n)) (heap k a)),
       events := events k @ replicate n (Call t)\<rparr>"
proof (induction n)
  case 0
  have "(\<lambda>a. map_option (map (\<lambda>x. x)) (heap k a)) = heap k"
    by (intro ext) (simp add: option.map_ident)
  then show ?case by (simp add: id_def)
next
  case (Suc n)
  have c: "map_option (map (ftrace_invoke t)) (map_option (map (ftrace_invoke t ^^ n)) x)
      = map_option (map (ftrace_invoke t ^^ Suc n)) x" for x :: "sample_ops list option"
    by (cases x) simp_all
  have "(ftrace_entry t ^^ Suc n) k = ftrace_entry t ((ftrace_entry t ^^ n) k)"
    by simp
  also have "\<dots> = ftrace_entry t
      (k\<lparr>heap := (\<lambda>a. map_option (map (ftrace_invoke t ^^ n)) (heap k a)),
         events := events k @ replicate n (Call t)\<rparr>)"
    by (simp only: Suc)
  also have "\<dots> = k\<lparr>heap := (\<lambda>a. map_option (map (ftrace_invoke t))
                         (map_option (map (ftrace_invoke t ^^ n)) (heap k a))),
         events := events k @ replicate n (Call t) @ [Call t]\<rparr>"
    by (simp add: ftrace_entry_def)
  also have "\<dots> = k\<lparr>heap := (\<lambda>a. map_option (map (ftrace_invoke t ^^ Suc n)) (heap k a)),
         events := events k @ replicate (Suc n) (Call t)\<rparr>"
    by (simp only: c replicate_append_same replicate_Suc)
  finally show ?case .
qed

lemma ftrace_entry_funpow_heap:
  "heap ((ftrace_entry t ^^ n) k) a = map_option (map (ftrace_invoke t ^^ n)) (heap k a)"
  by (simp add: ftrace_entry_funpow)


lemma ftrace_entry_funpow_nclock: "nclock ((ftrace_entry t ^^ n) k) = nclock k"
  by (simp add: ftrace_entry_funpow)

lemma call_tracee_relevant_funpow:
  "(call_tracee_relevant ^^ n) (m, k) = (m, (ftrace_entry Tracee_relevant ^^ n) k)"
  by (induction n) (simp_all add: call_tracee_relevant_def tracee_relevant_def barrier_def)

lemma init_measure_eq:
  "init_measure e (m, k) =
     Inr (clock e (nclock k), clock e (Suc (nclock k)), m,
          snd (ktime_get e ((ftrace_entry Tracee_relevant ^^ unat (nr_function_calls m))
                 (snd (ktime_get e k)))))"
  by (simp add: for_u32_funpow call_tracee_relevant_funpow ktime_get_def
      ftrace_entry_funpow_nclock)

lemma valid_ops_map:
  assumes "valid_ops k p nr" and "\<And>a. heap k' a = map_option (map f) (heap k a)"
  shows "valid_ops k' p nr"
  using assms by (cases p) (auto simp: valid_ops_Some)

lemma valid_ops_heap_eq:
  "valid_ops k p nr \<Longrightarrow> heap k' = heap k \<Longrightarrow> valid_ops k' p nr"
  by (cases p) (simp_all add: valid_ops_Some)

lemma init_check_safe:
  assumes "ptrs_ok (m, k)"
  shows "\<exists>k'. init_check (m, k) = Inr (m, k') \<and> ptrs_ok (m, k') \<and> heap k' = heap k"
proof -
  from assms have v1: "valid_ops k (ops_relevant m) (nr_ops_relevant m)"
    and v2: "valid_ops k (ops_irrelevant m) (nr_ops_irrelevant m)"
    by (simp_all add: ptrs_ok_def)
  from ops_check_safe [OF v1, of m "nr_function_calls m"] obtain ev1
    where c1: "ops_check m (ops_relevant m) (nr_ops_relevant m) (nr_function_calls m) k
        = Inr (k\<lparr>events := events k @ ev1\<rparr>)"
    by blast
  have "valid_ops (k\<lparr>events := events k @ ev1\<rparr>) (ops_irrelevant m) (nr_ops_irrelevant m)"
    using v2 by (rule valid_ops_heap_eq) simp
  from ops_check_safe [OF this, of m 0] obtain ev2
    where c2: "ops_check m (ops_irrelevant m) (nr_ops_irrelevant m) 0
          (k\<lparr>events := events k @ ev1\<rparr>)
        = Inr (k\<lparr>events := events k @ ev1 @ ev2\<rparr>)"
    by auto
  have "ptrs_ok (m, k\<lparr>events := events k @ ev1 @ ev2\<rparr>)"
    using assms valid_ops_heap_eq [of k _ _ "k\<lparr>events := events k @ ev1 @ ev2\<rparr>"]
    by (simp add: ptrs_ok_def)
  then show ?thesis
    by (simp add: c1 c2)
qed

lemma init_report_eq:
  "init_report st fi (m, k) =
     (if nr_function_calls m = 0 then Inl Divide_error
      else Inr (m, pr (Pr_info_attempted (nr_function_calls m) (fi - st)
                        ((fi - st) div ucast (nr_function_calls m))) k))"
  by (simp add: div_u64_def init_period_def ktime_to_ns_def ktime_sub_def Let_def)

lemma teardown_safe:
  assumes "ptrs_ok (m, k)"
  shows "\<exists>k1 k2. ops_destroy (ops_relevant m) (nr_ops_relevant m) k = Inr k1 \<and>
           ops_destroy (ops_irrelevant m) (nr_ops_irrelevant m) k1 = Inr k2 \<and>
           (\<forall>b. heap k2 b = (if Some b = ops_relevant m \<or> Some b = ops_irrelevant m
                              then None else heap k b))"
proof -
  from assms have v1: "valid_ops k (ops_relevant m) (nr_ops_relevant m)"
    and v2: "valid_ops k (ops_irrelevant m) (nr_ops_irrelevant m)"
    and d: "ops_relevant m = None \<or> ops_relevant m \<noteq> ops_irrelevant m"
    by (simp_all add: ptrs_ok_def)
  from ops_destroy_safe [OF v1] obtain k1
    where d1: "ops_destroy (ops_relevant m) (nr_ops_relevant m) k = Inr k1"
      and h1: "\<forall>b. heap k1 b = (if Some b = ops_relevant m then None else heap k b)"
    by blast
  have "valid_ops k1 (ops_irrelevant m) (nr_ops_irrelevant m)"
    using v2 d h1 by (cases "ops_irrelevant m") (auto simp: valid_ops_Some)
  from ops_destroy_safe [OF this] obtain k2
    where d2: "ops_destroy (ops_irrelevant m) (nr_ops_irrelevant m) k1 = Inr k2"
      and h2: "\<forall>b. heap k2 b = (if Some b = ops_irrelevant m then None else heap k1 b)"
    by blast
  have "\<forall>b. heap k2 b = (if Some b = ops_relevant m \<or> Some b = ops_irrelevant m
                              then None else heap k b)"
    using h1 h2 by simp
  with d1 d2 show ?thesis by blast
qed

subsection \<open>\<open>ops_alloc_init\<close>\<close>

lemma partly_registered_0: "partly_registered e t fn fl n0 0 arr = arr"
  by (simp add: partly_registered_def map_nth)

lemma partly_registered_length [simp]:
  "length (partly_registered e t fn fl n0 j arr) = length arr"
  by (simp add: partly_registered_def)

lemma partly_registered_Suc:
  assumes "j < length arr"
  shows "(partly_registered e t fn fl n0 j arr)
           [j := registered_ops e t fn fl (n0 + 2 * j) (partly_registered e t fn fl n0 j arr ! j)]
         = partly_registered e t fn fl n0 (Suc j) arr"
  using assms
  by (intro nth_equalityI) (auto simp: partly_registered_def nth_list_update less_Suc_eq)

lemma ops_alloc_init_loop:
  assumes "heap k a = Some arr" and "unat nr \<le> length arr"
  shows "\<exists>k'. for_u32 (ops_alloc_init_body e a t fn fl) nr 0 k = Inr k' \<and>
           (heap k' a = Some (partly_registered e t fn fl (nftrace k) (unat nr) arr) \<and>
            (\<forall>b. b \<noteq> a \<longrightarrow> heap k' b = heap k b) \<and> brk k' = brk k \<and>
            nalloc k' = nalloc k \<and> nftrace k' = nftrace k + 2 * unat nr)"
proof (rule for_u32_from_0
    [where I = "\<lambda>j k'. heap k' a = Some (partly_registered e t fn fl (nftrace k) j arr) \<and>
            (\<forall>b. b \<noteq> a \<longrightarrow> heap k' b = heap k b) \<and> brk k' = brk k \<and>
            nalloc k' = nalloc k \<and> nftrace k' = nftrace k + 2 * j"])
  show "heap k a = Some (partly_registered e t fn fl (nftrace k) 0 arr) \<and>
      (\<forall>b. b \<noteq> a \<longrightarrow> heap k b = heap k b) \<and> brk k = brk k \<and>
      nalloc k = nalloc k \<and> nftrace k = nftrace k + 2 * 0"
    using assms by (simp add: partly_registered_0)
next
  fix j :: u32 and t' :: kernel
  assume lt: "j < nr"
    and inv: "heap t' a = Some (partly_registered e t fn fl (nftrace k) (unat j) arr) \<and>
      (\<forall>b. b \<noteq> a \<longrightarrow> heap t' b = heap k b) \<and> brk t' = brk k \<and>
      nalloc t' = nalloc k \<and> nftrace t' = nftrace k + 2 * unat j"
  have jl: "unat j < length arr"
    using unat_less_u32 [OF lt] assms(2) by simp
  then have jl': "unat j < length (partly_registered e t fn fl (nftrace k) (unat j) arr)"
    by simp
  from inv have h: "heap t' a = Some (partly_registered e t fn fl (nftrace k) (unat j) arr)"
    by simp
  from ops_alloc_init_body_ok [OF h jl', of e t fn fl] inv
    partly_registered_Suc [OF jl, of e t fn fl "nftrace k"]
  show "\<exists>t''. ops_alloc_init_body e a t fn fl j t' = Inr t'' \<and>
      (heap t'' a = Some (partly_registered e t fn fl (nftrace k) (Suc (unat j)) arr) \<and>
       (\<forall>b. b \<noteq> a \<longrightarrow> heap t'' b = heap k b) \<and> brk t'' = brk k \<and>
       nalloc t'' = nalloc k \<and> nftrace t'' = nftrace k + 2 * Suc (unat j))"
    by simp
qed

lemma ops_alloc_init_null:
  "kcalloc_fails e (nalloc k) \<Longrightarrow>
   ops_alloc_init e t fn fl nr k
     = Inr (None, k\<lparr>nalloc := nalloc k + 1, events := events k @ [Warn_on_once 126]\<rparr>)"
  by (simp add: ops_alloc_init_def kcalloc_def WARN_ON_ONCE_def)

lemma ops_alloc_init_array:
  assumes "\<not> kcalloc_fails e (nalloc k)"
  shows "\<exists>k'. ops_alloc_init e t fn fl nr k = Inr (Some (brk k), k') \<and>
     heap k' (brk k) = Some (partly_registered e t fn fl (nftrace k) (unat nr)
                        (replicate (unat (scast nr :: u64)) zeroed_ops)) \<and>
     (\<forall>b. b \<noteq> brk k \<longrightarrow> heap k' b = heap k b) \<and> brk k' = Suc (brk k) \<and>
     nalloc k' = Suc (nalloc k) \<and> nftrace k' = nftrace k + 2 * unat nr"
proof -
  let ?arr = "replicate (unat (scast nr :: u64)) zeroed_ops"
  let ?k1 = "k\<lparr>nalloc := nalloc k + 1, heap := (heap k)(brk k \<mapsto> ?arr), brk := brk k + 1\<rparr>"
  have kc: "kcalloc e (scast nr) k = (Some (brk k), ?k1)"
    using assms by (simp add: kcalloc_def)
  have h: "heap ?k1 (brk k) = Some ?arr"
    by simp
  have l: "unat nr \<le> length ?arr"
    using unat_le_scast_u32 [of nr] by simp
  from ops_alloc_init_loop [OF h l, of e t fn fl] obtain k'
    where r: "for_u32 (ops_alloc_init_body e (brk k) t fn fl) nr 0 ?k1 = Inr k'"
      and a: "heap k' (brk k) = Some (partly_registered e t fn fl (nftrace ?k1) (unat nr) ?arr)"
      and f: "\<forall>b. b \<noteq> brk k \<longrightarrow> heap k' b = heap ?k1 b"
      and b: "brk k' = brk ?k1" "nalloc k' = nalloc ?k1" "nftrace k' = nftrace ?k1 + 2 * unat nr"
    by blast
  have "ops_alloc_init e t fn fl nr k = Inr (Some (brk k), k')"
    using r by (simp add: ops_alloc_init_def kc)
  with a f b show ?thesis by simp
qed

subsection \<open>The registration step\<close>

lemma valid_ops_partly:
  "heap k a = Some (partly_registered e t fn fl n0 (unat nr) (replicate (unat (scast nr :: u64)) z))
   \<Longrightarrow> valid_ops k (Some a) nr"
  using unat_le_scast_u32 [of nr] by (simp add: valid_ops_Some)

lemma init_register_arrays_at:
  "\<exists>p q k'.
     init_register e fl (m, k) = Inr (m\<lparr>ops_relevant := p, ops_irrelevant := q\<rparr>, k') \<and>
     ptrs_ok (m\<lparr>ops_relevant := p, ops_irrelevant := q\<rparr>, k') \<and>
     (if kcalloc_fails e (nalloc k) then p = None
      else p = Some (brk k) \<and>
           heap k' (brk k) = Some (partly_registered e Tracee_relevant (tracer_relevant m) fl
               (nftrace k) (unat (nr_ops_relevant m))
               (replicate (unat (scast (nr_ops_relevant m) :: u64)) zeroed_ops))) \<and>
     (if kcalloc_fails e (Suc (nalloc k)) then q = None
      else q = Some (if kcalloc_fails e (nalloc k) then brk k else Suc (brk k)) \<and>
           heap k' (if kcalloc_fails e (nalloc k) then brk k else Suc (brk k))
             = Some (partly_registered e Tracee_irrelevant (tracer_irrelevant m) fl
               (nftrace k + (if kcalloc_fails e (nalloc k) then 0 else 2 * unat (nr_ops_relevant m)))
               (unat (nr_ops_irrelevant m))
               (replicate (unat (scast (nr_ops_irrelevant m) :: u64)) zeroed_ops))) \<and>
     (\<forall>b. b \<noteq> brk k \<and> b \<noteq> Suc (brk k) \<longrightarrow> heap k' b = heap k b)"
proof -
  let ?k1 = "pr (Pr_info_registering (nr_ops_relevant m) (tracer_relevant m)
                     (nr_ops_irrelevant m) (tracer_irrelevant m)
                     (save_regs m) (assist_recursion m) (assist_rcu m)) k"
  let ?A = "partly_registered e Tracee_relevant (tracer_relevant m) fl
               (nftrace k) (unat (nr_ops_relevant m))
               (replicate (unat (scast (nr_ops_relevant m) :: u64)) zeroed_ops)"
  have k1: "nalloc ?k1 = nalloc k" "brk ?k1 = brk k" "heap ?k1 = heap k" "nftrace ?k1 = nftrace k"
    by (simp_all add: pr_def)
  text \<open>the first allocation\<close>
  have "\<exists>p k2. ops_alloc_init e Tracee_relevant (tracer_relevant m) fl (nr_ops_relevant m) ?k1
            = Inr (p, k2) \<and> nalloc k2 = Suc (nalloc k) \<and>
          nftrace k2 = nftrace k + (if kcalloc_fails e (nalloc k) then 0 else 2 * unat (nr_ops_relevant m)) \<and>
          (\<forall>b. b \<noteq> brk k \<longrightarrow> heap k2 b = heap k b) \<and>
          (if kcalloc_fails e (nalloc k) then p = None \<and> brk k2 = brk k
           else p = Some (brk k) \<and> brk k2 = Suc (brk k) \<and> heap k2 (brk k) = Some ?A)"
  proof (cases "kcalloc_fails e (nalloc k)")
    case True
    then show ?thesis
      using ops_alloc_init_null [of e ?k1] by (simp add: k1)
  next
    case False
    then show ?thesis
      using ops_alloc_init_array [of e ?k1 Tracee_relevant "tracer_relevant m" fl
          "nr_ops_relevant m"]
      by (auto simp: k1)
  qed
  then obtain p k2
    where a1: "ops_alloc_init e Tracee_relevant (tracer_relevant m) fl (nr_ops_relevant m) ?k1
            = Inr (p, k2)"
      and n2: "nalloc k2 = Suc (nalloc k)"
      and n1: "nftrace k2 = nftrace k + (if kcalloc_fails e (nalloc k) then 0 else 2 * unat (nr_ops_relevant m))"
      and f1: "\<forall>b. b \<noteq> brk k \<longrightarrow> heap k2 b = heap k b"
      and c1: "if kcalloc_fails e (nalloc k) then p = None \<and> brk k2 = brk k
           else p = Some (brk k) \<and> brk k2 = Suc (brk k) \<and> heap k2 (brk k) = Some ?A"
    by blast
  text \<open>the second allocation\<close>
  let ?B = "partly_registered e Tracee_irrelevant (tracer_irrelevant m) fl
               (nftrace k2) (unat (nr_ops_irrelevant m))
               (replicate (unat (scast (nr_ops_irrelevant m) :: u64)) zeroed_ops)"
  have "\<exists>q k3. ops_alloc_init e Tracee_irrelevant (tracer_irrelevant m) fl
              (nr_ops_irrelevant m) k2 = Inr (q, k3) \<and>
          (\<forall>b. b \<noteq> brk k2 \<longrightarrow> heap k3 b = heap k2 b) \<and>
          (if kcalloc_fails e (Suc (nalloc k)) then q = None
           else q = Some (brk k2) \<and> heap k3 (brk k2) = Some ?B)"
  proof (cases "kcalloc_fails e (Suc (nalloc k))")
    case True
    then show ?thesis
      using ops_alloc_init_null [of e k2] by (simp add: n2)
  next
    case False
    then show ?thesis
      using ops_alloc_init_array [of e k2 Tracee_irrelevant "tracer_irrelevant m" fl
          "nr_ops_irrelevant m"]
      by (auto simp: n2)
  qed
  then obtain q k3
    where a2: "ops_alloc_init e Tracee_irrelevant (tracer_irrelevant m) fl
              (nr_ops_irrelevant m) k2 = Inr (q, k3)"
      and f2: "\<forall>b. b \<noteq> brk k2 \<longrightarrow> heap k3 b = heap k2 b"
      and c2: "if kcalloc_fails e (Suc (nalloc k)) then q = None
           else q = Some (brk k2) \<and> heap k3 (brk k2) = Some ?B"
    by blast
  let ?m' = "m\<lparr>ops_relevant := p, ops_irrelevant := q\<rparr>"
  have b2: "brk k2 = (if kcalloc_fails e (nalloc k) then brk k else Suc (brk k))"
    using c1 by (simp split: if_splits)
  have r: "init_register e fl (m, k) = Inr (?m', k3)"
    by (simp add: a1 a2 Let_def)
  have hA: "\<not> kcalloc_fails e (nalloc k) \<Longrightarrow> heap k3 (brk k) = Some ?A"
    using c1 f2 b2 by simp
  have v1: "valid_ops k3 p (nr_ops_relevant m)"
    using c1 hA valid_ops_partly [of k3 "brk k"] by (cases "kcalloc_fails e (nalloc k)") simp_all
  have v2: "valid_ops k3 q (nr_ops_irrelevant m)"
    using c2 valid_ops_partly [of k3 "brk k2"]
    by (cases "kcalloc_fails e (Suc (nalloc k))") simp_all
  have d: "p = None \<or> p \<noteq> q"
    using c1 c2 by (auto split: if_splits)
  have ok: "ptrs_ok (?m', k3)"
    using v1 v2 d by (simp add: ptrs_ok_def)
  have fr: "\<forall>b. b \<noteq> brk k \<and> b \<noteq> Suc (brk k) \<longrightarrow> heap k3 b = heap k b"
    using f1 f2 b2 by (simp split: if_splits)
  show ?thesis
    apply (rule exI [of _ p], rule exI [of _ q], rule exI [of _ k3])
    using r ok c1 c2 hA b2 fr n1 by (simp split: if_splits)
qed

lemma init_register_arrays:
  "\<exists>p q k' n1.
     init_register e fl (m, k) = Inr (m\<lparr>ops_relevant := p, ops_irrelevant := q\<rparr>, k') \<and>
     ptrs_ok (m\<lparr>ops_relevant := p, ops_irrelevant := q\<rparr>, k') \<and>
     (if kcalloc_fails e (nalloc k) then p = None
      else p = Some (brk k) \<and>
           heap k' (brk k) = Some (partly_registered e Tracee_relevant (tracer_relevant m) fl
               (nftrace k) (unat (nr_ops_relevant m))
               (replicate (unat (scast (nr_ops_relevant m) :: u64)) zeroed_ops))) \<and>
     (if kcalloc_fails e (Suc (nalloc k)) then q = None
      else q = Some (if kcalloc_fails e (nalloc k) then brk k else Suc (brk k)) \<and>
           heap k' (if kcalloc_fails e (nalloc k) then brk k else Suc (brk k))
             = Some (partly_registered e Tracee_irrelevant (tracer_irrelevant m) fl
               n1 (unat (nr_ops_irrelevant m))
               (replicate (unat (scast (nr_ops_irrelevant m) :: u64)) zeroed_ops))) \<and>
     (\<forall>b. b \<noteq> brk k \<and> b \<noteq> Suc (brk k) \<longrightarrow> heap k' b = heap k b)"
  using init_register_arrays_at [of e fl m k] by blast

subsection \<open>The flags step and the whole run\<close>

declare init_measure.simps [simp del]
declare init_check.simps [simp del]
declare init_report.simps [simp del]
declare init_register.simps [simp del]

lemma init_flags_module:
  "fst (snd (init_flags e (m, k))) =
     m\<lparr>save_regs := CONFIG_DYNAMIC_FTRACE_WITH_REGS e \<and> save_regs m,
       tracer_relevant := (if check_count m then Ops_func_count else tracer_relevant m),
       tracer_irrelevant := (if check_count m then Ops_func_count else tracer_irrelevant m)\<rparr>"
  by (cases m) (simp add: Let_def)

lemma init_flags_kernel:
  "snd (snd (init_flags e (m, k))) =
     (if \<not> CONFIG_DYNAMIC_FTRACE_WITH_REGS e \<and> save_regs m then pr Pr_info_no_save_regs k else k)"
  by (simp add: Let_def)

lemma init_flags_word:
  "fst (init_flags e (m, k)) =
     (if CONFIG_DYNAMIC_FTRACE_WITH_REGS e \<and> save_regs m then FTRACE_OPS_FL_SAVE_REGS e else 0)
       OR (if assist_recursion m then FTRACE_OPS_FL_RECURSION e else 0)
       OR (if assist_rcu m then FTRACE_OPS_FL_RCU e else 0)"
  by (simp add: Let_def or.assoc)

declare init_flags.simps [simp del]

lemma init_flags_requests:
  "nftrace (snd (snd (init_flags e (m, k)))) = nftrace k"
  "nr_ops_relevant (fst (snd (init_flags e (m, k)))) = nr_ops_relevant m"
  "nr_ops_irrelevant (fst (snd (init_flags e (m, k)))) = nr_ops_irrelevant m"
  by (simp_all add: init_flags_kernel init_flags_module pr_def)

lemma ptrs_ok_heap_eq:
  "ptrs_ok (m, k) \<Longrightarrow> heap k' = heap k \<Longrightarrow> ptrs_ok (m, k')"
  using valid_ops_heap_eq [of k _ _ k'] by (simp add: ptrs_ok_def)

text \<open>
  The run of \<open>ftrace_ops_sample_init\<close> up to the report, for every module, kernel
  and host: the first four steps cannot fault, and leave the two pointers in order.
\<close>

lemma init_reaches_report:
  "\<exists>p q k2 k4.
     init_register e (fst (init_flags e (m, k))) (snd (init_flags e (m, k)))
       = Inr ((fst (snd (init_flags e (m, k))))\<lparr>ops_relevant := p, ops_irrelevant := q\<rparr>, k2) \<and>
     ftrace_ops_sample_init e (m, k)
       = (case init_report (clock e (nclock k2)) (clock e (Suc (nclock k2)))
                ((fst (snd (init_flags e (m, k))))\<lparr>ops_relevant := p, ops_irrelevant := q\<rparr>, k4) of
            Inl x \<Rightarrow> Inl x
          | Inr s5 \<Rightarrow> init_finish s5) \<and>
     ptrs_ok ((fst (snd (init_flags e (m, k))))\<lparr>ops_relevant := p, ops_irrelevant := q\<rparr>, k4) \<and>
     (\<forall>a. heap k4 a = map_option (map (ftrace_invoke Tracee_relevant
              ^^ unat (nr_function_calls m))) (heap k2 a))"
proof -
  let ?fl = "fst (init_flags e (m, k))"
  let ?m1 = "fst (snd (init_flags e (m, k)))"
  let ?k1 = "snd (snd (init_flags e (m, k)))"
  have nr: "nr_function_calls ?m1 = nr_function_calls m"
    by (simp add: init_flags_module)
  from init_register_arrays [of e ?fl ?m1 ?k1] obtain p q k2
    where r: "init_register e ?fl (?m1, ?k1)
        = Inr (?m1\<lparr>ops_relevant := p, ops_irrelevant := q\<rparr>, k2)"
      and ok2: "ptrs_ok (?m1\<lparr>ops_relevant := p, ops_irrelevant := q\<rparr>, k2)"
    by blast
  let ?m2 = "?m1\<lparr>ops_relevant := p, ops_irrelevant := q\<rparr>"
  let ?k3 = "snd (ktime_get e ((ftrace_entry Tracee_relevant ^^ unat (nr_function_calls ?m2))
                 (snd (ktime_get e k2))))"
  have h3: "heap ?k3 a = map_option (map (ftrace_invoke Tracee_relevant
              ^^ unat (nr_function_calls m))) (heap k2 a)" for a
    by (simp add: ktime_get_def ftrace_entry_funpow_heap nr)
  have ok3: "ptrs_ok (?m2, ?k3)"
    using ok2 valid_ops_map [OF _ h3] by (simp add: ptrs_ok_def)
  from init_check_safe [OF ok3] obtain k4
    where c: "init_check (?m2, ?k3) = Inr (?m2, k4)" and ok4: "ptrs_ok (?m2, k4)"
      and h4: "heap k4 = heap ?k3"
    by blast
  have run: "ftrace_ops_sample_init e (m, k)
      = (case init_report (clock e (nclock k2)) (clock e (Suc (nclock k2))) (?m2, k4) of
            Inl x \<Rightarrow> Inl x
          | Inr s5 \<Rightarrow> init_finish s5)"
    using r c
    by (simp add: ftrace_ops_sample_init_def case_prod_beta init_measure_eq
        del: init_finish.simps)
  have h: "\<forall>a. heap k4 a = map_option (map (ftrace_invoke Tracee_relevant
              ^^ unat (nr_function_calls m))) (heap k2 a)"
    using h3 h4 by simp
  show ?thesis
    apply (rule exI [of _ p], rule exI [of _ q], rule exI [of _ k2], rule exI [of _ k4])
    using r run ok4 h by (simp del: init_finish.simps)
qed

text \<open>With a non-zero \<open>nr_function_calls\<close> the report is printed and the last step runs.\<close>

lemma init_reaches_finish:
  assumes "nr_function_calls m \<noteq> 0"
  shows "\<exists>p q k2 k5.
     init_register e (fst (init_flags e (m, k))) (snd (init_flags e (m, k)))
       = Inr ((fst (snd (init_flags e (m, k))))\<lparr>ops_relevant := p, ops_irrelevant := q\<rparr>, k2) \<and>
     ftrace_ops_sample_init e (m, k)
       = init_finish ((fst (snd (init_flags e (m, k))))\<lparr>ops_relevant := p, ops_irrelevant := q\<rparr>, k5) \<and>
     ptrs_ok ((fst (snd (init_flags e (m, k))))\<lparr>ops_relevant := p, ops_irrelevant := q\<rparr>, k5) \<and>
     (\<forall>a. heap k5 a = map_option (map (ftrace_invoke Tracee_relevant
              ^^ unat (nr_function_calls m))) (heap k2 a))"
proof -
  let ?m1 = "fst (snd (init_flags e (m, k)))"
  have nr: "nr_function_calls ?m1 = nr_function_calls m"
    by (simp add: init_flags_module)
  from init_reaches_report [of e m k] obtain p q k2 k4
    where r: "init_register e (fst (init_flags e (m, k))) (snd (init_flags e (m, k)))
        = Inr (?m1\<lparr>ops_relevant := p, ops_irrelevant := q\<rparr>, k2)"
      and run: "ftrace_ops_sample_init e (m, k)
        = (case init_report (clock e (nclock k2)) (clock e (Suc (nclock k2)))
                (?m1\<lparr>ops_relevant := p, ops_irrelevant := q\<rparr>, k4) of
            Inl x \<Rightarrow> Inl x
          | Inr s5 \<Rightarrow> init_finish s5)"
      and ok4: "ptrs_ok (?m1\<lparr>ops_relevant := p, ops_irrelevant := q\<rparr>, k4)"
      and h4: "\<forall>a. heap k4 a = map_option (map (ftrace_invoke Tracee_relevant
              ^^ unat (nr_function_calls m))) (heap k2 a)"
    by blast
  let ?m2 = "?m1\<lparr>ops_relevant := p, ops_irrelevant := q\<rparr>"
  let ?k5 = "pr (Pr_info_attempted (nr_function_calls m)
                   (clock e (Suc (nclock k2)) - clock e (nclock k2))
                   ((clock e (Suc (nclock k2)) - clock e (nclock k2))
                      div ucast (nr_function_calls m))) k4"
  have h5: "heap ?k5 = heap k4"
    by (simp add: pr_def)
  have fin: "ftrace_ops_sample_init e (m, k) = init_finish (?m2, ?k5)"
    using assms by (simp add: run init_report_eq nr del: init_finish.simps)
  have ok5: "ptrs_ok (?m2, ?k5)"
    using ok4 h5 by (rule ptrs_ok_heap_eq)
  show ?thesis
    apply (rule exI [of _ p], rule exI [of _ q], rule exI [of _ k2], rule exI [of _ ?k5])
    using r fin ok5 h4 h5 by (simp del: init_finish.simps)
qed

subsection \<open>The flags word on the ops\<close>

lemma ops_carry_None [simp]: "ops_carry k None nr fn fl"
  by (simp add: ops_carry_def)

lemma partly_registered_carries:
  assumes "j \<le> length arr"
  shows "\<forall>s \<in> set (take j (partly_registered e t fn fl n0 j arr)).
           func (ops s) = Some fn \<and> flags (ops s) = fl"
proof
  fix s
  assume "s \<in> set (take j (partly_registered e t fn fl n0 j arr))"
  then obtain x where x: "x < j" and s: "s = partly_registered e t fn fl n0 j arr ! x"
    using assms by (auto simp: in_set_conv_nth)
  from x assms have "x < length arr" by simp
  with x s show "func (ops s) = Some fn \<and> flags (ops s) = fl"
    by (simp add: partly_registered_def registered_ops_def)
qed

lemma ops_carry_partly:
  "heap k a = Some (partly_registered e t fn fl n0 (unat nr) (replicate (unat (scast nr :: u64)) z))
   \<Longrightarrow> ops_carry k (Some a) nr fn fl"
  using unat_le_scast_u32 [of nr]
    partly_registered_carries [of "unat nr" "replicate (unat (scast nr :: u64)) z" e t fn fl n0]
  by (simp add: ops_carry_def)

lemma init_register_carries:
  "\<exists>m2 k2. init_register e fl (m, k) = Inr (m2, k2) \<and>
     ops_carry k2 (ops_relevant m2) (nr_ops_relevant m) (tracer_relevant m) fl \<and>
     ops_carry k2 (ops_irrelevant m2) (nr_ops_irrelevant m) (tracer_irrelevant m) fl"
proof -
  from init_register_arrays [of e fl m k] obtain p q k' n1
    where r: "init_register e fl (m, k) = Inr (m\<lparr>ops_relevant := p, ops_irrelevant := q\<rparr>, k')"
      and a: "if kcalloc_fails e (nalloc k) then p = None
        else p = Some (brk k) \<and>
           heap k' (brk k) = Some (partly_registered e Tracee_relevant (tracer_relevant m) fl
               (nftrace k) (unat (nr_ops_relevant m))
               (replicate (unat (scast (nr_ops_relevant m) :: u64)) zeroed_ops))"
      and b: "if kcalloc_fails e (Suc (nalloc k)) then q = None
        else q = Some (if kcalloc_fails e (nalloc k) then brk k else Suc (brk k)) \<and>
           heap k' (if kcalloc_fails e (nalloc k) then brk k else Suc (brk k))
             = Some (partly_registered e Tracee_irrelevant (tracer_irrelevant m) fl
               n1 (unat (nr_ops_irrelevant m))
               (replicate (unat (scast (nr_ops_irrelevant m) :: u64)) zeroed_ops))"
    by blast
  have "ops_carry k' p (nr_ops_relevant m) (tracer_relevant m) fl"
    using a by (cases "kcalloc_fails e (nalloc k)") (auto intro: ops_carry_partly)
  moreover have "ops_carry k' q (nr_ops_irrelevant m) (tracer_irrelevant m) fl"
    using b by (cases "kcalloc_fails e (Suc (nalloc k))") (auto intro: ops_carry_partly)
  ultimately show ?thesis
    using r by simp
qed

lemma has_flag_or: "has_flag (x OR y) f = (has_flag x f \<or> has_flag y f)"
  by (auto simp: has_flag_def word_ao_dist or_eq_0_iff)

lemma has_flag_0 [simp]: "\<not> has_flag 0 f"
  by (simp add: has_flag_def)

lemma has_flag_self: "has_flag f f = (f \<noteq> 0)"
  by (simp add: has_flag_def)

lemma has_flag_disjoint: "x AND f = 0 \<Longrightarrow> \<not> has_flag x f"
  by (simp add: has_flag_def)

subsection \<open>Registration when the host accepts every request\<close>

lemma registered_ops_accepted:
  "\<forall>n. \<not> ftrace_fails e n \<Longrightarrow> registered_ops e t fn fl n zeroed_ops = registered_op t fn fl"
  by (simp add: registered_ops_def registered_op_def zeroed_ops_def)

lemma partly_registered_accepted:
  assumes "\<forall>n. \<not> ftrace_fails e n" and "j \<le> L"
  shows "partly_registered e t fn fl n0 j (replicate L zeroed_ops)
     = replicate j (registered_op t fn fl) @ replicate (L - j) zeroed_ops"
  using assms
  by (intro nth_equalityI)
    (auto simp: partly_registered_def registered_ops_accepted nth_append)

lemma init_flags_kernel_fields:
  "brk (snd (snd (init_flags e (m, k)))) = brk k"
  "nalloc (snd (snd (init_flags e (m, k)))) = nalloc k"
  "heap (snd (snd (init_flags e (m, k)))) = heap k"
  by (simp_all add: init_flags_kernel pr_def)

subsection \<open>Counts of ops that are not traced\<close>

lemma counts_zero_None [simp]: "counts_zero k None"
  by (simp add: counts_zero_def)

lemma counts_zero_Some:
  "heap k a = Some arr \<Longrightarrow> counts_zero k (Some a) = (\<forall>s \<in> set arr. count s = 0)"
  by (simp add: counts_zero_def)

lemma attached_only_None [simp]: "attached_only k None t"
  by (simp add: attached_only_def)

lemma attached_only_Some:
  "heap k a = Some arr \<Longrightarrow>
   attached_only k (Some a) t = (\<forall>s \<in> set arr. enabled (ops s) \<longrightarrow> filter_ip (ops s) = Some t)"
  by (simp add: attached_only_def)

lemma ftrace_invoke_not_attached:
  "enabled (ops s) \<longrightarrow> filter_ip (ops s) = Some Tracee_irrelevant \<Longrightarrow>
   (ftrace_invoke Tracee_relevant ^^ n) s = s"
  by (induction n) (auto simp: ftrace_invoke_def ftrace_traces_def)

lemma partly_registered_attached:
  assumes "\<forall>i<j. \<not> ftrace_fails e (n0 + 2 * i)"
  shows "\<forall>s \<in> set (partly_registered e t fn fl n0 j (replicate L zeroed_ops)).
           enabled (ops s) \<longrightarrow> filter_ip (ops s) = Some t"
  using assms by (auto simp: partly_registered_def registered_ops_def zeroed_ops_def)

lemma partly_registered_counts:
  "\<forall>s \<in> set (partly_registered e t fn fl n0 j (replicate L zeroed_ops)). count s = 0"
  by (auto simp: partly_registered_def registered_ops_def zeroed_ops_def)

lemma ops_check_zero:
  assumes "heap k a = Some arr" and "unat nr \<le> length arr" and "\<forall>s \<in> set arr. count s = 0"
  shows "for_u32 (ops_check_body a 0) nr 0 k = Inr k"
proof -
  have "count (arr ! 0) = 0 \<or> unat nr = 0"
    using assms(2,3) by (cases arr) auto
  then have "k\<lparr>events := events k @
            (if count (arr ! 0) = 0 then []
             else replicate (unat nr) (Pr_warn_counter (count (arr ! 0)) 0))\<rparr> = k"
    by auto
  then show ?thesis
    by (simp only: ops_check_loop [OF assms(1,2)])
qed

subsection \<open>The last step of initialisation and the exit\<close>



lemma init_finish_safe:
  assumes "ptrs_ok (m, k)"
  shows "\<exists>k'. init_finish (m, k) = Inr (if persist m then 0 else - EINVAL, m, k') \<and>
     (\<forall>b. heap k' b = (if \<not> persist m \<and> (Some b = ops_relevant m \<or> Some b = ops_irrelevant m)
                        then None else heap k b))"
proof (cases "persist m")
  case True
  then show ?thesis by simp
next
  case False
  from teardown_safe [OF assms] obtain k1 k2
    where "ops_destroy (ops_relevant m) (nr_ops_relevant m) k = Inr k1"
      and "ops_destroy (ops_irrelevant m) (nr_ops_irrelevant m) k1 = Inr k2"
      and "\<forall>b. heap k2 b = (if Some b = ops_relevant m \<or> Some b = ops_irrelevant m
                              then None else heap k b)"
    by blast
  with False show ?thesis by simp
qed

lemma exit_safe:
  assumes "ptrs_ok (m, k)"
  shows "\<exists>k'. ftrace_ops_sample_exit (m, k) = Inr (m, k')"
proof -
  from teardown_safe [OF assms] obtain k1 k2
    where "ops_destroy (ops_relevant m) (nr_ops_relevant m) k = Inr k1"
      and "ops_destroy (ops_irrelevant m) (nr_ops_irrelevant m) k1 = Inr k2"
    by blast
  then show ?thesis by simp
qed

declare init_finish.simps [simp del]
declare ftrace_ops_sample_exit.simps [simp del]

section \<open>The claims\<close>



text \<open>
  C2. The report divides the period by \<open>nr_function_calls\<close> with \<open>div_u64\<close>. The
  parameter may be 0, and then the quotient is not defined: whatever the other
  parameters, the kernel and the host, initialisation reaches the report and ends in
  the division by zero.
\<close>

theorem init_divides_by_zero:
  "nr_function_calls m = 0 \<Longrightarrow> ftrace_ops_sample_init e (m, k) = Inl Divide_error"
proof -
  assume z: "nr_function_calls m = 0"
  have nr: "nr_function_calls (fst (snd (init_flags e (m, k)))) = nr_function_calls m"
    by (simp add: init_flags_module)
  from init_reaches_report [of e m k] obtain p q and k2 k4 :: kernel
    where "ftrace_ops_sample_init e (m, k)
        = (case init_report (clock e (nclock k2)) (clock e (Suc (nclock k2)))
                ((fst (snd (init_flags e (m, k))))\<lparr>ops_relevant := p, ops_irrelevant := q\<rparr>, k4) of
            Inl x \<Rightarrow> Inl x
          | Inr s5 \<Rightarrow> init_finish s5)"
    by blast
  then show ?thesis
    using z by (simp add: init_report_eq nr)
qed

theorem init_divides_by_zero_witness:
  "nr_function_calls (default_module\<lparr>nr_function_calls := 0\<rparr>) = 0 \<and>
   div_u64 1000 (nr_function_calls (default_module\<lparr>nr_function_calls := 0\<rparr>)) = None \<and>
   ftrace_ops_sample_init example_env (default_module\<lparr>nr_function_calls := 0\<rparr>, boot_kernel)
     = Inl Divide_error"
  using init_divides_by_zero [of "default_module\<lparr>nr_function_calls := 0\<rparr>" example_env boot_kernel]
  by (simp add: default_module_def div_u64_def)

text \<open>
  C3, as amended. When the module is as loaded, both allocations succeed and the host
  accepts every filter and registration request, the registration step leaves two
  arrays: the first \<open>nr_ops_relevant\<close> elements of the one are registered ops
  filtered on \<open>tracee_relevant\<close>, the first \<open>nr_ops_irrelevant\<close> elements of the
  other are registered ops filtered on \<open>tracee_irrelevant\<close>, each with the callback
  \<open>ops_func_count\<close> when \<open>check_count\<close> is set and \<open>ops_func_nop\<close> otherwise and
  with the flags word computed from the parameters. What lies beyond those elements is
  zeroed and not registered, and no other memory changes.
\<close>

theorem init_registers_ops:
  fixes e :: env and m :: module and k :: kernel
  defines "fl \<equiv> fst (init_flags e (m, k))"
    and "fn \<equiv> (if check_count m then Ops_func_count else Ops_func_nop)"
  assumes "at_load m"
    and "\<not> kcalloc_fails e (nalloc k)" and "\<not> kcalloc_fails e (Suc (nalloc k))"
    and "\<forall>n. \<not> ftrace_fails e n"
  shows "\<exists>m2 k2. init_register e fl (snd (init_flags e (m, k))) = Inr (m2, k2) \<and>
     ops_relevant m2 = Some (brk k) \<and> ops_irrelevant m2 = Some (Suc (brk k)) \<and>
     heap k2 (brk k) = Some
       (replicate (unat (nr_ops_relevant m)) (registered_op Tracee_relevant fn fl) @
        replicate (unat (scast (nr_ops_relevant m) :: u64) - unat (nr_ops_relevant m)) zeroed_ops) \<and>
     heap k2 (Suc (brk k)) = Some
       (replicate (unat (nr_ops_irrelevant m)) (registered_op Tracee_irrelevant fn fl) @
        replicate (unat (scast (nr_ops_irrelevant m) :: u64) - unat (nr_ops_irrelevant m))
          zeroed_ops) \<and>
     (\<forall>b. b \<noteq> brk k \<and> b \<noteq> Suc (brk k) \<longrightarrow> heap k2 b = heap k b)"
proof -
  let ?m1 = "fst (snd (init_flags e (m, k)))"
  let ?k1 = "snd (snd (init_flags e (m, k)))"
  have t: "tracer_relevant ?m1 = fn" "tracer_irrelevant ?m1 = fn"
    using assms(3) by (simp_all add: init_flags_module at_load_def fn_def)
  have nr: "nr_ops_relevant ?m1 = nr_ops_relevant m" "nr_ops_irrelevant ?m1 = nr_ops_irrelevant m"
    by (simp_all add: init_flags_module)
  from init_register_arrays [of e fl ?m1 ?k1] obtain p q k' n1
    where r: "init_register e fl (?m1, ?k1) = Inr (?m1\<lparr>ops_relevant := p, ops_irrelevant := q\<rparr>, k')"
      and a: "p = Some (brk k) \<and>
           heap k' (brk k) = Some (partly_registered e Tracee_relevant fn fl
               (nftrace ?k1) (unat (nr_ops_relevant m))
               (replicate (unat (scast (nr_ops_relevant m) :: u64)) zeroed_ops))"
      and b: "q = Some (Suc (brk k)) \<and>
           heap k' (Suc (brk k))
             = Some (partly_registered e Tracee_irrelevant fn fl
               n1 (unat (nr_ops_irrelevant m))
               (replicate (unat (scast (nr_ops_irrelevant m) :: u64)) zeroed_ops))"
      and f: "\<forall>b. b \<noteq> brk k \<and> b \<noteq> Suc (brk k) \<longrightarrow> heap k' b = heap k b"
    using assms(4,5) by (auto simp: init_flags_kernel_fields t nr)
  show ?thesis
    apply (rule exI [of _ "?m1\<lparr>ops_relevant := p, ops_irrelevant := q\<rparr>"], rule exI [of _ k'])
    using r a b f partly_registered_accepted [OF assms(6) unat_le_scast_u32]
    by simp
qed

theorem init_registers_ops_witness:
  "at_load (default_module\<lparr>nr_ops_relevant := 2, nr_ops_irrelevant := 1, check_count := True\<rparr>) \<and>
   \<not> kcalloc_fails example_env (nalloc boot_kernel) \<and>
   \<not> kcalloc_fails example_env (Suc (nalloc boot_kernel)) \<and>
   (\<forall>n. \<not> ftrace_fails example_env n) \<and>
   (\<exists>m2 k2. init_register example_env 0
        (default_module\<lparr>nr_ops_relevant := 2, nr_ops_irrelevant := 1, check_count := True,
           tracer_relevant := Ops_func_count, tracer_irrelevant := Ops_func_count\<rparr>, boot_kernel)
        = Inr (m2, k2) \<and>
      ops_relevant m2 = Some 0 \<and> ops_irrelevant m2 = Some 1 \<and>
      heap k2 0 = Some [registered_op Tracee_relevant Ops_func_count 0,
                        registered_op Tracee_relevant Ops_func_count 0] \<and>
      heap k2 1 = Some [registered_op Tracee_irrelevant Ops_func_count 0] \<and>
      heap k2 2 = None)"
proof -
  let ?m = "default_module\<lparr>nr_ops_relevant := 2, nr_ops_irrelevant := 1, check_count := True\<rparr>"
  have h1: "at_load ?m"
    by (simp add: at_load_def default_module_def)
  have h2: "\<not> kcalloc_fails example_env (nalloc boot_kernel)"
    and h3: "\<not> kcalloc_fails example_env (Suc (nalloc boot_kernel))"
    and h4: "\<forall>n. \<not> ftrace_fails example_env n"
    by (simp_all add: example_env_def)
  have fl: "fst (init_flags example_env (?m, boot_kernel)) = 0"
    by (simp add: init_flags_word example_env_def default_module_def)
  have s: "snd (init_flags example_env (?m, boot_kernel))
      = (?m\<lparr>tracer_relevant := Ops_func_count, tracer_irrelevant := Ops_func_count\<rparr>, boot_kernel)"
    by (simp add: prod_eq_iff init_flags_module init_flags_kernel example_env_def
        default_module_def)
  have r: "replicate 2 c = [c, c]" for c :: sample_ops
    by (simp add: numeral_2_eq_2)
  have b: "brk boot_kernel = 0" "heap boot_kernel = (\<lambda>a. None)"
    by (simp_all add: boot_kernel_def)
  note inst = init_registers_ops [OF h1 h2 h3 h4, unfolded fl s, simplified b, simplified]
  then obtain m2 k2
    where c: "init_register example_env 0
        (?m\<lparr>tracer_relevant := Ops_func_count, tracer_irrelevant := Ops_func_count\<rparr>, boot_kernel)
        = Inr (m2, k2)"
      "ops_relevant m2 = Some 0" "ops_irrelevant m2 = Some (Suc 0)"
      "heap k2 0 = Some (replicate 2 (registered_op Tracee_relevant Ops_func_count 0))"
      "heap k2 (Suc 0) = Some [registered_op Tracee_irrelevant Ops_func_count 0]"
      and f: "\<forall>b. 0 < b \<and> b \<noteq> Suc 0 \<longrightarrow> heap k2 b = None"
    by blast
  from f have "heap k2 2 = None"
    by simp
  with c have "\<exists>m2 k2. init_register example_env 0
        (?m\<lparr>tracer_relevant := Ops_func_count, tracer_irrelevant := Ops_func_count\<rparr>, boot_kernel)
        = Inr (m2, k2) \<and>
      ops_relevant m2 = Some 0 \<and> ops_irrelevant m2 = Some 1 \<and>
      heap k2 0 = Some [registered_op Tracee_relevant Ops_func_count 0,
                        registered_op Tracee_relevant Ops_func_count 0] \<and>
      heap k2 1 = Some [registered_op Tracee_irrelevant Ops_func_count 0] \<and>
      heap k2 2 = None"
    by (simp add: r)
  with h1 h2 h3 h4 show ?thesis
    by simp
qed

text \<open>
  C3 as stated fails. With \<open>nr_ops_relevant = 0x80000000\<close> the count reaches
  \<open>ops_alloc_init\<close> as a negative \<open>int\<close> and \<open>kcalloc\<close> returns a null pointer:
  the step ends with \<open>ops_relevant\<close> null and an empty irrelevant array as the only
  new memory, so with no op registered, where the claim has 2147483648 of them.
\<close>

theorem init_registers_ops_counterexample:
  "at_load (default_module\<lparr>nr_ops_relevant := 0x80000000\<rparr>) \<and>
   unat (nr_ops_relevant (default_module\<lparr>nr_ops_relevant := 0x80000000\<rparr>)) = 2147483648 \<and>
   sint (nr_ops_relevant (default_module\<lparr>nr_ops_relevant := 0x80000000\<rparr>)) = - 2147483648 \<and>
   init_flags first_alloc_fails_env (default_module\<lparr>nr_ops_relevant := 0x80000000\<rparr>, boot_kernel)
     = (0, default_module\<lparr>nr_ops_relevant := 0x80000000\<rparr>, boot_kernel) \<and>
   init_register first_alloc_fails_env 0
       (default_module\<lparr>nr_ops_relevant := 0x80000000\<rparr>, boot_kernel)
     = Inr (default_module\<lparr>nr_ops_relevant := 0x80000000, ops_relevant := None,
              ops_irrelevant := Some 0\<rparr>,
            boot_kernel\<lparr>heap := (heap boot_kernel)(0 \<mapsto> []), brk := 1, nalloc := 2,
              events := [Pr_info_registering 0x80000000 Ops_func_nop 0 Ops_func_nop
                           False False False,
                         Warn_on_once 126]\<rparr>)"
  by (simp add: at_load_def default_module_def first_alloc_fails_env_def example_env_def
      boot_kernel_def init_flags.simps init_register.simps ops_alloc_init_def kcalloc_def
      WARN_ON_ONCE_def pr_def Let_def for_u32_done)

text \<open>
  C4. On a kernel built without \<open>CONFIG_DYNAMIC_FTRACE_WITH_REGS\<close>, a requested
  \<open>save_regs\<close> is forced to false and \<open>FTRACE_OPS_FL_SAVE_REGS\<close> is not set in the
  flags word; otherwise the flag is set exactly when \<open>save_regs\<close> is true, and
  \<open>save_regs\<close> keeps its value. Every op the registration initialises, in either
  array, carries that flags word.
\<close>

theorem save_regs_flag:
  fixes e :: env and m :: module and k :: kernel
  defines "fl \<equiv> fst (init_flags e (m, k))"
    and "m1 \<equiv> fst (snd (init_flags e (m, k)))"
  assumes "flag_bits_ok e"
  shows "(\<not> CONFIG_DYNAMIC_FTRACE_WITH_REGS e \<and> save_regs m \<longrightarrow>
            \<not> save_regs m1 \<and> \<not> has_flag fl (FTRACE_OPS_FL_SAVE_REGS e)) \<and>
         (\<not> (\<not> CONFIG_DYNAMIC_FTRACE_WITH_REGS e \<and> save_regs m) \<longrightarrow>
            (has_flag fl (FTRACE_OPS_FL_SAVE_REGS e) \<longleftrightarrow> save_regs m) \<and>
            (save_regs m1 \<longleftrightarrow> save_regs m)) \<and>
         (\<exists>m2 k2. init_register e fl (snd (init_flags e (m, k))) = Inr (m2, k2) \<and>
            ops_carry k2 (ops_relevant m2) (nr_ops_relevant m) (tracer_relevant m1) fl \<and>
            ops_carry k2 (ops_irrelevant m2) (nr_ops_irrelevant m) (tracer_irrelevant m1) fl)"
proof -
  have d: "FTRACE_OPS_FL_RECURSION e AND FTRACE_OPS_FL_SAVE_REGS e = 0"
    "FTRACE_OPS_FL_RCU e AND FTRACE_OPS_FL_SAVE_REGS e = 0"
    "FTRACE_OPS_FL_SAVE_REGS e \<noteq> 0"
    using assms(3) by (simp_all add: flag_bits_ok_def and.commute)
  have w: "has_flag fl (FTRACE_OPS_FL_SAVE_REGS e)
      \<longleftrightarrow> CONFIG_DYNAMIC_FTRACE_WITH_REGS e \<and> save_regs m"
    using d by (simp add: fl_def init_flags_word has_flag_or has_flag_self has_flag_disjoint)
  have s: "save_regs m1 \<longleftrightarrow> CONFIG_DYNAMIC_FTRACE_WITH_REGS e \<and> save_regs m"
    by (simp add: m1_def init_flags_module)
  have nr: "nr_ops_relevant (fst (snd (init_flags e (m, k)))) = nr_ops_relevant m"
    "nr_ops_irrelevant (fst (snd (init_flags e (m, k)))) = nr_ops_irrelevant m"
    by (simp_all add: init_flags_module)
  from init_register_carries [of e fl m1 "snd (snd (init_flags e (m, k)))"]
  have "\<exists>m2 k2. init_register e fl (snd (init_flags e (m, k))) = Inr (m2, k2) \<and>
            ops_carry k2 (ops_relevant m2) (nr_ops_relevant m) (tracer_relevant m1) fl \<and>
            ops_carry k2 (ops_irrelevant m2) (nr_ops_irrelevant m) (tracer_irrelevant m1) fl"
    by (simp add: nr m1_def)
  with w s show ?thesis by blast
qed

theorem save_regs_flag_witness:
  "flag_bits_ok (example_env\<lparr>CONFIG_DYNAMIC_FTRACE_WITH_REGS := False\<rparr>) \<and>
   \<not> save_regs (fst (snd (init_flags (example_env\<lparr>CONFIG_DYNAMIC_FTRACE_WITH_REGS := False\<rparr>)
                      (default_module\<lparr>save_regs := True\<rparr>, boot_kernel)))) \<and>
   \<not> has_flag (fst (init_flags (example_env\<lparr>CONFIG_DYNAMIC_FTRACE_WITH_REGS := False\<rparr>)
                      (default_module\<lparr>save_regs := True\<rparr>, boot_kernel))) 4 \<and>
   flag_bits_ok example_env \<and>
   has_flag (fst (init_flags example_env (default_module\<lparr>save_regs := True\<rparr>, boot_kernel))) 4 \<and>
   save_regs (fst (snd (init_flags example_env
                      (default_module\<lparr>save_regs := True\<rparr>, boot_kernel)))) \<and>
   (\<exists>m2 k2. init_register example_env 4
                (default_module\<lparr>save_regs := True\<rparr>, boot_kernel) = Inr (m2, k2) \<and>
      ops_carry k2 (ops_relevant m2) 1 Ops_func_nop 4 \<and>
      ops_carry k2 (ops_irrelevant m2) 0 Ops_func_nop 4)"
proof -
  have ok: "flag_bits_ok (example_env\<lparr>CONFIG_DYNAMIC_FTRACE_WITH_REGS := c\<rparr>)" for c
    by (simp add: flag_bits_ok_def example_env_def)
  have ok': "flag_bits_ok example_env"
    by (simp add: flag_bits_ok_def example_env_def)
  have fl: "fst (init_flags example_env (default_module\<lparr>save_regs := True\<rparr>, boot_kernel)) = 4"
    by (simp add: init_flags_word example_env_def default_module_def)
  have s: "snd (init_flags example_env (default_module\<lparr>save_regs := True\<rparr>, boot_kernel))
      = (default_module\<lparr>save_regs := True\<rparr>, boot_kernel)"
    by (simp add: prod_eq_iff init_flags_module init_flags_kernel example_env_def
        default_module_def)
  show ?thesis
    using save_regs_flag [OF ok [of False], of "default_module\<lparr>save_regs := True\<rparr>" boot_kernel]
      save_regs_flag [OF ok', of "default_module\<lparr>save_regs := True\<rparr>" boot_kernel] ok ok'
    by (simp add: fl s) (simp add: example_env_def default_module_def)
qed

text \<open>
  C5. In the flags word, which every op of either array carries,
  \<open>FTRACE_OPS_FL_RECURSION\<close> is set exactly when \<open>assist_recursion\<close> is true and
  \<open>FTRACE_OPS_FL_RCU\<close> exactly when \<open>assist_rcu\<close> is true.
\<close>

theorem assist_flags:
  fixes e :: env and m :: module and k :: kernel
  defines "fl \<equiv> fst (init_flags e (m, k))"
    and "m1 \<equiv> fst (snd (init_flags e (m, k)))"
  assumes "flag_bits_ok e"
  shows "(has_flag fl (FTRACE_OPS_FL_RECURSION e) \<longleftrightarrow> assist_recursion m) \<and>
         (has_flag fl (FTRACE_OPS_FL_RCU e) \<longleftrightarrow> assist_rcu m) \<and>
         (\<exists>m2 k2. init_register e fl (snd (init_flags e (m, k))) = Inr (m2, k2) \<and>
            ops_carry k2 (ops_relevant m2) (nr_ops_relevant m) (tracer_relevant m1) fl \<and>
            ops_carry k2 (ops_irrelevant m2) (nr_ops_irrelevant m) (tracer_irrelevant m1) fl)"
proof -
  have d: "FTRACE_OPS_FL_SAVE_REGS e AND FTRACE_OPS_FL_RECURSION e = 0"
    "FTRACE_OPS_FL_RCU e AND FTRACE_OPS_FL_RECURSION e = 0"
    "FTRACE_OPS_FL_SAVE_REGS e AND FTRACE_OPS_FL_RCU e = 0"
    "FTRACE_OPS_FL_RECURSION e AND FTRACE_OPS_FL_RCU e = 0"
    "FTRACE_OPS_FL_RECURSION e \<noteq> 0" "FTRACE_OPS_FL_RCU e \<noteq> 0"
    using assms(3) by (simp_all add: flag_bits_ok_def and.commute)
  have w1: "has_flag fl (FTRACE_OPS_FL_RECURSION e) \<longleftrightarrow> assist_recursion m"
    using d by (simp add: fl_def init_flags_word has_flag_or has_flag_self has_flag_disjoint)
  have w2: "has_flag fl (FTRACE_OPS_FL_RCU e) \<longleftrightarrow> assist_rcu m"
    using d by (simp add: fl_def init_flags_word has_flag_or has_flag_self has_flag_disjoint)
  have nr: "nr_ops_relevant (fst (snd (init_flags e (m, k)))) = nr_ops_relevant m"
    "nr_ops_irrelevant (fst (snd (init_flags e (m, k)))) = nr_ops_irrelevant m"
    by (simp_all add: init_flags_module)
  from init_register_carries [of e fl m1 "snd (snd (init_flags e (m, k)))"]
  have "\<exists>m2 k2. init_register e fl (snd (init_flags e (m, k))) = Inr (m2, k2) \<and>
            ops_carry k2 (ops_relevant m2) (nr_ops_relevant m) (tracer_relevant m1) fl \<and>
            ops_carry k2 (ops_irrelevant m2) (nr_ops_irrelevant m) (tracer_irrelevant m1) fl"
    by (simp add: nr m1_def)
  with w1 w2 show ?thesis by blast
qed

theorem assist_flags_witness:
  "flag_bits_ok example_env \<and>
   has_flag (fst (init_flags example_env (default_module\<lparr>assist_rcu := True\<rparr>, boot_kernel))) 16384 \<and>
   \<not> has_flag (fst (init_flags example_env (default_module\<lparr>assist_rcu := True\<rparr>, boot_kernel))) 16 \<and>
   (\<exists>m2 k2. init_register example_env 16384
                (default_module\<lparr>assist_rcu := True\<rparr>, boot_kernel) = Inr (m2, k2) \<and>
      ops_carry k2 (ops_relevant m2) 1 Ops_func_nop 16384 \<and>
      ops_carry k2 (ops_irrelevant m2) 0 Ops_func_nop 16384)"
proof -
  have ok: "flag_bits_ok example_env"
    by (simp add: flag_bits_ok_def example_env_def)
  have fl: "fst (init_flags example_env (default_module\<lparr>assist_rcu := True\<rparr>, boot_kernel)) = 16384"
    by (simp add: init_flags_word example_env_def default_module_def)
  have s: "snd (init_flags example_env (default_module\<lparr>assist_rcu := True\<rparr>, boot_kernel))
      = (default_module\<lparr>assist_rcu := True\<rparr>, boot_kernel)"
    by (simp add: prod_eq_iff init_flags_module init_flags_kernel example_env_def
        default_module_def)
  show ?thesis
    using assist_flags [OF ok, of "default_module\<lparr>assist_rcu := True\<rparr>" boot_kernel] ok
    by (simp add: fl s) (simp add: example_env_def default_module_def)
qed

text \<open>
  C6. When the host accepts the \<open>ftrace_set_filter_ip\<close> request of every
  irrelevant op, the registration step leaves the irrelevant ops attached to
  \<open>tracee_irrelevant\<close> alone. Attached so, they are not run by the calls of the timed
  loop, which are calls of \<open>tracee_relevant\<close>: after the registration and any number
  of those calls every element of the irrelevant array has a count of 0. It is so after
  the timed step, and the check of the irrelevant ops that follows, against an expected
  count of 0, prints nothing.
\<close>

theorem irrelevant_counts_stay_zero:
  "\<exists>m2 k2. init_register e (fst (init_flags e (m, k))) (snd (init_flags e (m, k)))
           = Inr (m2, k2) \<and>
     ((\<forall>i < unat (nr_ops_irrelevant m).
          \<not> ftrace_fails e (irrelevant_filter_request e (m, k) i)) \<longrightarrow>
        attached_only k2 (ops_irrelevant m2) Tracee_irrelevant) \<and>
     (attached_only k2 (ops_irrelevant m2) Tracee_irrelevant \<longrightarrow>
        (\<forall>n. counts_zero (snd ((call_tracee_relevant ^^ n) (m2, k2))) (ops_irrelevant m2)) \<and>
        (\<exists>st fi k3 k4. init_measure e (m2, k2) = Inr (st, fi, m2, k3) \<and>
           counts_zero k3 (ops_irrelevant m2) \<and>
           ops_check m2 (ops_relevant m2) (nr_ops_relevant m2) (nr_function_calls m2) k3
             = Inr k4 \<and>
           ops_check m2 (ops_irrelevant m2) (nr_ops_irrelevant m2) 0 k4 = Inr k4 \<and>
           init_check (m2, k3) = Inr (m2, k4)))"
proof -
  let ?fl = "fst (init_flags e (m, k))"
  let ?m1 = "fst (snd (init_flags e (m, k)))"
  let ?k1 = "snd (snd (init_flags e (m, k)))"
  let ?L = "unat (scast (nr_ops_irrelevant ?m1) :: u64)"
  let ?j = "unat (nr_ops_irrelevant ?m1)"
  let ?n1 = "nftrace ?k1
      + (if kcalloc_fails e (nalloc ?k1) then 0 else 2 * unat (nr_ops_relevant ?m1))"
  from init_register_arrays_at [of e ?fl ?m1 ?k1] obtain p q k2
    where r: "init_register e ?fl (?m1, ?k1)
          = Inr (?m1\<lparr>ops_relevant := p, ops_irrelevant := q\<rparr>, k2)"
      and ok: "ptrs_ok (?m1\<lparr>ops_relevant := p, ops_irrelevant := q\<rparr>, k2)"
      and b: "if kcalloc_fails e (Suc (nalloc ?k1)) then q = None
        else q = Some (if kcalloc_fails e (nalloc ?k1) then brk ?k1 else Suc (brk ?k1)) \<and>
           heap k2 (if kcalloc_fails e (nalloc ?k1) then brk ?k1 else Suc (brk ?k1))
             = Some (partly_registered e Tracee_irrelevant (tracer_irrelevant ?m1) ?fl
               ?n1 ?j (replicate ?L zeroed_ops))"
    by blast
  let ?m2 = "?m1\<lparr>ops_relevant := p, ops_irrelevant := q\<rparr>"
  let ?B = "partly_registered e Tracee_irrelevant (tracer_irrelevant ?m1) ?fl
               ?n1 ?j (replicate ?L zeroed_ops)"
  have q: "q = None \<or> (\<exists>a. q = Some a \<and> heap k2 a = Some ?B)"
    using b by (cases "kcalloc_fails e (Suc (nalloc ?k1))") simp_all
  have zero_B: "\<forall>s \<in> set ?B. count s = 0"
    by (rule partly_registered_counts)
  text \<open>the irrelevant ops are attached to \<open>tracee_irrelevant\<close> when the host accepts\<close>
  have g2: "(\<forall>i < unat (nr_ops_irrelevant m).
          \<not> ftrace_fails e (irrelevant_filter_request e (m, k) i)) \<longrightarrow>
        attached_only k2 q Tracee_irrelevant"
  proof
    assume "\<forall>i < unat (nr_ops_irrelevant m).
          \<not> ftrace_fails e (irrelevant_filter_request e (m, k) i)"
    then have acc: "\<forall>i < ?j. \<not> ftrace_fails e (?n1 + 2 * i)"
      by (auto simp: irrelevant_filter_request_def init_flags_requests init_flags_kernel_fields)
    from q show "attached_only k2 q Tracee_irrelevant"
    proof
      assume "q = None"
      then show ?thesis by simp
    next
      assume "\<exists>a. q = Some a \<and> heap k2 a = Some ?B"
      then obtain a where a: "q = Some a" and h: "heap k2 a = Some ?B"
        by blast
      from acc
      have "\<forall>s \<in> set ?B. enabled (ops s) \<longrightarrow> filter_ip (ops s) = Some Tracee_irrelevant"
        by (rule partly_registered_attached)
      then show ?thesis
        by (simp only: a attached_only_Some [OF h])
    qed
  qed
  text \<open>when they are, the calls and the checks leave their counts at 0\<close>
  have g3: "(\<forall>n. counts_zero (snd ((call_tracee_relevant ^^ n) (?m2, k2))) q) \<and>
        (\<exists>st fi k3 k4. init_measure e (?m2, k2) = Inr (st, fi, ?m2, k3) \<and>
           counts_zero k3 q \<and>
           ops_check ?m2 p (nr_ops_relevant ?m1) (nr_function_calls ?m1) k3 = Inr k4 \<and>
           ops_check ?m2 q (nr_ops_irrelevant ?m1) 0 k4 = Inr k4 \<and>
           init_check (?m2, k3) = Inr (?m2, k4))"
    if att: "attached_only k2 q Tracee_irrelevant"
  proof -
    have same: "q = Some a \<Longrightarrow> heap k2 a = Some ?B \<Longrightarrow>
        map (ftrace_invoke Tracee_relevant ^^ n) ?B = ?B" for a n
    proof -
      assume a: "q = Some a" and h: "heap k2 a = Some ?B"
      from att have "\<forall>s \<in> set ?B. enabled (ops s) \<longrightarrow> filter_ip (ops s) = Some Tracee_irrelevant"
        by (simp only: a attached_only_Some [OF h])
      then show ?thesis
        by (intro map_idI) (simp add: ftrace_invoke_not_attached)
    qed
    have after: "counts_zero k' q"
      if "\<And>a. heap k' a = map_option (map (ftrace_invoke Tracee_relevant ^^ n)) (heap k2 a)"
      for k' n
    proof -
      from q show ?thesis
      proof
        assume "q = None"
        then show ?thesis by simp
      next
        assume "\<exists>a. q = Some a \<and> heap k2 a = Some ?B"
        then obtain a where a: "q = Some a" and h: "heap k2 a = Some ?B"
          by blast
        have "heap k' a = Some ?B"
          by (simp only: that h option.map same [OF a h])
        then show ?thesis
          using zero_B by (simp add: a counts_zero_Some)
      qed
    qed
    have calls: "counts_zero (snd ((call_tracee_relevant ^^ n) (?m2, k2))) q" for n
      by (rule after [of _ n]) (simp add: call_tracee_relevant_funpow ftrace_entry_funpow_heap)
    let ?k3 = "snd (ktime_get e ((ftrace_entry Tracee_relevant ^^ unat (nr_function_calls ?m2))
                   (snd (ktime_get e k2))))"
    have h3: "heap ?k3 a = map_option (map (ftrace_invoke Tracee_relevant
                ^^ unat (nr_function_calls ?m2))) (heap k2 a)" for a
      by (simp add: ktime_get_def ftrace_entry_funpow_heap)
    have ok3: "ptrs_ok (?m2, ?k3)"
      using ok valid_ops_map [OF _ h3] by (simp add: ptrs_ok_def)
    have me: "init_measure e (?m2, k2)
        = Inr (clock e (nclock k2), clock e (Suc (nclock k2)), ?m2, ?k3)"
      by (rule init_measure_eq)
    have z3: "counts_zero ?k3 q"
      using h3 by (rule after)
    from ok3 have v1: "valid_ops ?k3 p (nr_ops_relevant ?m1)"
      and v2: "valid_ops ?k3 q (nr_ops_irrelevant ?m1)"
      by (simp_all add: ptrs_ok_def)
    from ops_check_safe [OF v1, of ?m2 "nr_function_calls ?m2"] obtain ev
      where c1: "ops_check ?m2 p (nr_ops_relevant ?m1) (nr_function_calls ?m2) ?k3
          = Inr (?k3\<lparr>events := events ?k3 @ ev\<rparr>)"
      by blast
    let ?k4 = "?k3\<lparr>events := events ?k3 @ ev\<rparr>"
    have c2: "ops_check ?m2 q (nr_ops_irrelevant ?m1) 0 ?k4 = Inr ?k4"
    proof (cases q)
      case None
      then show ?thesis by (simp add: ops_check_def)
    next
      case (Some a)
      with v2 obtain arr where h: "heap ?k3 a = Some arr"
        and l: "unat (nr_ops_irrelevant ?m1) \<le> length arr"
        by (auto simp: valid_ops_Some)
      have h4: "heap ?k4 a = Some arr"
        using h by simp
      have z: "\<forall>s \<in> set arr. count s = 0"
        using z3 h by (simp add: Some counts_zero_Some)
      have "for_u32 (ops_check_body a 0) (nr_ops_irrelevant ?m1) 0 ?k4 = Inr ?k4"
        using h4 l z by (rule ops_check_zero)
      then show ?thesis
        by (simp add: ops_check_def Some)
    qed
    have ck: "init_check (?m2, ?k3) = Inr (?m2, ?k4)"
      using c1 c2 by (simp add: init_check.simps)
    have "\<exists>st fi k3 k4. init_measure e (?m2, k2) = Inr (st, fi, ?m2, k3) \<and>
           counts_zero k3 q \<and>
           ops_check ?m2 p (nr_ops_relevant ?m1) (nr_function_calls ?m1) k3 = Inr k4 \<and>
           ops_check ?m2 q (nr_ops_irrelevant ?m1) 0 k4 = Inr k4 \<and>
           init_check (?m2, k3) = Inr (?m2, k4)"
      apply (rule exI [of _ "clock e (nclock k2)"], rule exI [of _ "clock e (Suc (nclock k2))"],
          rule exI [of _ ?k3], rule exI [of _ ?k4])
      using me z3 c1 c2 ck by simp
    with calls show ?thesis
      by blast
  qed
  have g1: "init_register e ?fl (snd (init_flags e (m, k))) = Inr (?m2, k2)"
    using r by simp
  show ?thesis
    apply (rule exI [of _ ?m2], rule exI [of _ k2])
    using g1 g2 g3 by simp
qed

theorem irrelevant_counts_stay_zero_witness:
  "\<not> ftrace_fails example_env
       (irrelevant_filter_request example_env
          (default_module\<lparr>nr_function_calls := 3, nr_ops_irrelevant := 2, check_count := True\<rparr>,
           boot_kernel) 0) \<and>
   \<not> ftrace_fails example_env
       (irrelevant_filter_request example_env
          (default_module\<lparr>nr_function_calls := 3, nr_ops_irrelevant := 2, check_count := True\<rparr>,
           boot_kernel) 1) \<and>
   (\<exists>m2 k2. init_register example_env 0
        (default_module\<lparr>nr_function_calls := 3, nr_ops_irrelevant := 2, check_count := True,
           tracer_relevant := Ops_func_count, tracer_irrelevant := Ops_func_count\<rparr>, boot_kernel)
        = Inr (m2, k2) \<and>
      attached_only k2 (ops_irrelevant m2) Tracee_irrelevant \<and>
      (\<forall>n. counts_zero (snd ((call_tracee_relevant ^^ n) (m2, k2))) (ops_irrelevant m2)) \<and>
      (\<exists>st fi k3 k4. init_measure example_env (m2, k2) = Inr (st, fi, m2, k3) \<and>
         counts_zero k3 (ops_irrelevant m2) \<and>
         ops_check m2 (ops_relevant m2) (nr_ops_relevant m2) (nr_function_calls m2) k3 = Inr k4 \<and>
         ops_check m2 (ops_irrelevant m2) (nr_ops_irrelevant m2) 0 k4 = Inr k4 \<and>
         init_check (m2, k3) = Inr (m2, k4)))"
proof -
  let ?m = "default_module\<lparr>nr_function_calls := 3, nr_ops_irrelevant := 2, check_count := True\<rparr>"
  have h: "\<not> ftrace_fails example_env n" for n
    by (simp add: example_env_def)
  then have h': "\<forall>i < unat (nr_ops_irrelevant ?m).
      \<not> ftrace_fails example_env (irrelevant_filter_request example_env (?m, boot_kernel) i)"
    by simp
  have fl: "fst (init_flags example_env (?m, boot_kernel)) = 0"
    by (simp add: init_flags_word example_env_def default_module_def)
  have s: "snd (init_flags example_env (?m, boot_kernel))
      = (?m\<lparr>tracer_relevant := Ops_func_count, tracer_irrelevant := Ops_func_count\<rparr>, boot_kernel)"
    by (simp add: prod_eq_iff init_flags_module init_flags_kernel example_env_def
        default_module_def)
  from irrelevant_counts_stay_zero [of example_env ?m boot_kernel, unfolded fl s] h'
  have "\<exists>m2 k2. init_register example_env 0
        (?m\<lparr>tracer_relevant := Ops_func_count, tracer_irrelevant := Ops_func_count\<rparr>, boot_kernel)
        = Inr (m2, k2) \<and>
      attached_only k2 (ops_irrelevant m2) Tracee_irrelevant \<and>
      (\<forall>n. counts_zero (snd ((call_tracee_relevant ^^ n) (m2, k2))) (ops_irrelevant m2)) \<and>
      (\<exists>st fi k3 k4. init_measure example_env (m2, k2) = Inr (st, fi, m2, k3) \<and>
         counts_zero k3 (ops_irrelevant m2) \<and>
         ops_check m2 (ops_relevant m2) (nr_ops_relevant m2) (nr_function_calls m2) k3 = Inr k4 \<and>
         ops_check m2 (ops_irrelevant m2) (nr_ops_irrelevant m2) 0 k4 = Inr k4 \<and>
         init_check (m2, k3) = Inr (m2, k4))"
    by blast
  with h show ?thesis
    by simp
qed

text \<open>
  C6 as stated fails. Lines 132-133 warn when \<open>ftrace_set_filter_ip\<close> fails and
  register the op all the same, with no filter, and ftrace runs an op that has no filter
  on every traced function. With the request of the irrelevant op refused, that op is
  registered but not attached to \<open>tracee_irrelevant\<close> alone; the three calls of
  \<open>tracee_relevant\<close> take its count to 3, and the check against 0 prints
  \<open>Counter called 3 times (expected 0)\<close>.
\<close>

theorem irrelevant_counts_stay_zero_counterexample:
  "at_load counting_module \<and>
   irrelevant_filter_request filter_refused_env (counting_module, boot_kernel) 0 = 2 \<and>
   ftrace_fails filter_refused_env 2 \<and>
   init_flags filter_refused_env (counting_module, boot_kernel)
     = (0, counting_module\<lparr>tracer_relevant := Ops_func_count, tracer_irrelevant := Ops_func_count\<rparr>,
        boot_kernel) \<and>
   init_register filter_refused_env 0
       (counting_module\<lparr>tracer_relevant := Ops_func_count, tracer_irrelevant := Ops_func_count\<rparr>,
        boot_kernel)
     = Inr (counting_module\<lparr>tracer_relevant := Ops_func_count, tracer_irrelevant := Ops_func_count,
         ops_relevant := Some 0, ops_irrelevant := Some 1\<rparr>,
       boot_kernel\<lparr>heap := (heap boot_kernel)
           (0 \<mapsto> [\<lparr>ops = \<lparr>func = Some Ops_func_count, flags = 0,
                           filter_ip = Some Tracee_relevant, enabled = True\<rparr>, count = 0\<rparr>],
            1 \<mapsto> [\<lparr>ops = \<lparr>func = Some Ops_func_count, flags = 0,
                           filter_ip = None, enabled = True\<rparr>, count = 0\<rparr>]),
         brk := 2, nalloc := 2, nftrace := 4,
         events := [Pr_info_registering 1 Ops_func_count 1 Ops_func_count False False False,
                    Warn_on_once 132]\<rparr>) \<and>
   \<not> attached_only
      (boot_kernel\<lparr>heap := (heap boot_kernel)
           (0 \<mapsto> [\<lparr>ops = \<lparr>func = Some Ops_func_count, flags = 0,
                           filter_ip = Some Tracee_relevant, enabled = True\<rparr>, count = 0\<rparr>],
            1 \<mapsto> [\<lparr>ops = \<lparr>func = Some Ops_func_count, flags = 0,
                           filter_ip = None, enabled = True\<rparr>, count = 0\<rparr>]),
         brk := 2, nalloc := 2, nftrace := 4,
         events := [Pr_info_registering 1 Ops_func_count 1 Ops_func_count False False False,
                    Warn_on_once 132]\<rparr>)
      (Some 1) Tracee_irrelevant \<and>
   \<not> counts_zero
      (snd ((call_tracee_relevant ^^ 3)
        (counting_module\<lparr>tracer_relevant := Ops_func_count, tracer_irrelevant := Ops_func_count,
         ops_relevant := Some 0, ops_irrelevant := Some 1\<rparr>,
         boot_kernel\<lparr>heap := (heap boot_kernel)
           (0 \<mapsto> [\<lparr>ops = \<lparr>func = Some Ops_func_count, flags = 0,
                           filter_ip = Some Tracee_relevant, enabled = True\<rparr>, count = 0\<rparr>],
            1 \<mapsto> [\<lparr>ops = \<lparr>func = Some Ops_func_count, flags = 0,
                           filter_ip = None, enabled = True\<rparr>, count = 0\<rparr>]),
         brk := 2, nalloc := 2, nftrace := 4,
         events := [Pr_info_registering 1 Ops_func_count 1 Ops_func_count False False False,
                    Warn_on_once 132]\<rparr>)))
      (Some 1) \<and>
   ftrace_ops_sample_init filter_refused_env (counting_module, boot_kernel)
     = Inr (- 22,
       counting_module\<lparr>tracer_relevant := Ops_func_count, tracer_irrelevant := Ops_func_count,
         ops_relevant := Some 0, ops_irrelevant := Some 1\<rparr>,
       boot_kernel\<lparr>brk := 2, nalloc := 2, nftrace := 4, nclock := 2,
         events := [Pr_info_registering 1 Ops_func_count 1 Ops_func_count False False False,
                    Warn_on_once 132, Ktime_get, Call Tracee_relevant, Call Tracee_relevant,
                    Call Tracee_relevant, Ktime_get, Pr_warn_counter 3 0,
                    Pr_info_attempted 3 1000 333]\<rparr>)"
proof -
  have a: "at_load counting_module"
    by (simp add: at_load_def counting_module_def default_module_def)
  have b: "irrelevant_filter_request filter_refused_env (counting_module, boot_kernel) 0 = 2"
    by (simp add: irrelevant_filter_request_def filter_refused_env_def example_env_def
        counting_module_def default_module_def boot_kernel_def)
  have c: "ftrace_fails filter_refused_env 2"
    by (simp add: filter_refused_env_def)
  have d: "init_flags filter_refused_env (counting_module, boot_kernel)
     = (0, counting_module\<lparr>tracer_relevant := Ops_func_count, tracer_irrelevant := Ops_func_count\<rparr>,
        boot_kernel)"
    by (simp add: counting_module_def default_module_def filter_refused_env_def example_env_def
        init_flags.simps Let_def)
  have e: "init_register filter_refused_env 0
       (counting_module\<lparr>tracer_relevant := Ops_func_count, tracer_irrelevant := Ops_func_count\<rparr>,
        boot_kernel)
     = Inr (counting_module\<lparr>tracer_relevant := Ops_func_count, tracer_irrelevant := Ops_func_count,
         ops_relevant := Some 0, ops_irrelevant := Some 1\<rparr>,
       boot_kernel\<lparr>heap := (heap boot_kernel)
           (0 \<mapsto> [\<lparr>ops = \<lparr>func = Some Ops_func_count, flags = 0,
                           filter_ip = Some Tracee_relevant, enabled = True\<rparr>, count = 0\<rparr>],
            1 \<mapsto> [\<lparr>ops = \<lparr>func = Some Ops_func_count, flags = 0,
                           filter_ip = None, enabled = True\<rparr>, count = 0\<rparr>]),
         brk := 2, nalloc := 2, nftrace := 4,
         events := [Pr_info_registering 1 Ops_func_count 1 Ops_func_count False False False,
                    Warn_on_once 132]\<rparr>)"
    by (simp add: counting_module_def default_module_def filter_refused_env_def example_env_def
        boot_kernel_def init_register.simps ops_alloc_init_def kcalloc_def ops_alloc_init_body_def
        ops_modify_def ops_read_def ftrace_set_filter_ip_def register_ftrace_function_def
        WARN_ON_ONCE_def pr_def Let_def for_u32.simps zeroed_ops_def)
  have f: "\<not> attached_only
      (boot_kernel\<lparr>heap := (heap boot_kernel)
           (0 \<mapsto> [\<lparr>ops = \<lparr>func = Some Ops_func_count, flags = 0,
                           filter_ip = Some Tracee_relevant, enabled = True\<rparr>, count = 0\<rparr>],
            1 \<mapsto> [\<lparr>ops = \<lparr>func = Some Ops_func_count, flags = 0,
                           filter_ip = None, enabled = True\<rparr>, count = 0\<rparr>]),
         brk := 2, nalloc := 2, nftrace := 4,
         events := [Pr_info_registering 1 Ops_func_count 1 Ops_func_count False False False,
                    Warn_on_once 132]\<rparr>)
      (Some 1) Tracee_irrelevant"
    by (simp add: attached_only_def)
  have g: "\<not> counts_zero
      (snd ((call_tracee_relevant ^^ 3)
        (counting_module\<lparr>tracer_relevant := Ops_func_count, tracer_irrelevant := Ops_func_count,
         ops_relevant := Some 0, ops_irrelevant := Some 1\<rparr>,
         boot_kernel\<lparr>heap := (heap boot_kernel)
           (0 \<mapsto> [\<lparr>ops = \<lparr>func = Some Ops_func_count, flags = 0,
                           filter_ip = Some Tracee_relevant, enabled = True\<rparr>, count = 0\<rparr>],
            1 \<mapsto> [\<lparr>ops = \<lparr>func = Some Ops_func_count, flags = 0,
                           filter_ip = None, enabled = True\<rparr>, count = 0\<rparr>]),
         brk := 2, nalloc := 2, nftrace := 4,
         events := [Pr_info_registering 1 Ops_func_count 1 Ops_func_count False False False,
                    Warn_on_once 132]\<rparr>)))
      (Some 1)"
    by (simp add: counts_zero_def numeral_3_eq_3 call_tracee_relevant_def tracee_relevant_def
        barrier_def ftrace_entry_def ftrace_invoke_def ftrace_traces_def ops_func_count_def)
  have h: "ftrace_ops_sample_init filter_refused_env (counting_module, boot_kernel)
     = Inr (- 22,
       counting_module\<lparr>tracer_relevant := Ops_func_count, tracer_irrelevant := Ops_func_count,
         ops_relevant := Some 0, ops_irrelevant := Some 1\<rparr>,
       boot_kernel\<lparr>brk := 2, nalloc := 2, nftrace := 4, nclock := 2,
         events := [Pr_info_registering 1 Ops_func_count 1 Ops_func_count False False False,
                    Warn_on_once 132, Ktime_get, Call Tracee_relevant, Call Tracee_relevant,
                    Call Tracee_relevant, Ktime_get, Pr_warn_counter 3 0,
                    Pr_info_attempted 3 1000 333]\<rparr>)"
    unfolding ftrace_ops_sample_init_def d
    by (simp add: e)
      (simp add: counting_module_def default_module_def filter_refused_env_def example_env_def
        boot_kernel_def init_measure.simps ktime_get_def for_u32.simps call_tracee_relevant_def
        tracee_relevant_def barrier_def ftrace_entry_def ftrace_invoke_def ftrace_traces_def
        ops_func_count_def init_check.simps ops_check_def ops_check_body_def ops_read_def pr_def
        init_report.simps init_period_def ktime_sub_def ktime_to_ns_def div_u64_def
        init_finish.simps ops_destroy_def ops_destroy_body_def unregister_ftrace_function_def
        ftrace_free_filter_def ops_modify_def kfree_def WARN_ON_ONCE_def EINVAL_def Let_def
        fun_eq_iff)
  from a b c d e f g h show ?thesis
    by (intro conjI)
qed





text \<open>
  C9. With \<open>check_count\<close> set, on an array of \<open>nr\<close> elements with \<open>nr\<close> at least
  1, \<open>ops_check\<close> looks at the count of the first element alone: it prints the same
  warning \<open>nr\<close> times when that count differs from the expected one and prints
  nothing when it is equal, whatever the counts of the other elements.
\<close>

theorem ops_check_first_element:
  assumes "check_count m" and "heap k a = Some arr"
    and "1 \<le> sint nr" and "length arr = nat (sint nr)"
  shows "ops_check m (Some a) nr expected k =
     Inr (k\<lparr>events := events k @
            (if count (arr ! 0) = expected then []
             else replicate (nat (sint nr)) (Pr_warn_counter (count (arr ! 0)) expected))\<rparr>)"
proof -
  have u: "unat nr = nat (sint nr)"
    using assms(3) by (rule unat_of_positive_int)
  then have l: "unat nr \<le> length arr"
    using assms(4) by simp
  show ?thesis
    using assms(1) by (simp add: ops_check_def ops_check_loop [OF assms(2) l] u)
qed

theorem ops_check_first_element_witness:
  "check_count (default_module\<lparr>check_count := True\<rparr>) \<and>
   heap (boot_kernel\<lparr>heap := (heap boot_kernel)(0 \<mapsto>
           [zeroed_ops\<lparr>count := 7\<rparr>, zeroed_ops\<lparr>count := 3\<rparr>, zeroed_ops\<lparr>count := 3\<rparr>])\<rparr>) 0
     = Some [zeroed_ops\<lparr>count := 7\<rparr>, zeroed_ops\<lparr>count := 3\<rparr>, zeroed_ops\<lparr>count := 3\<rparr>] \<and>
   1 \<le> sint (3 :: u32) \<and>
   length [zeroed_ops\<lparr>count := 7\<rparr>, zeroed_ops\<lparr>count := 3\<rparr>, zeroed_ops\<lparr>count := 3\<rparr>]
     = nat (sint (3 :: u32)) \<and>
   ops_check (default_module\<lparr>check_count := True\<rparr>) (Some 0) 3 3
      (boot_kernel\<lparr>heap := (heap boot_kernel)(0 \<mapsto>
           [zeroed_ops\<lparr>count := 7\<rparr>, zeroed_ops\<lparr>count := 3\<rparr>, zeroed_ops\<lparr>count := 3\<rparr>])\<rparr>)
     = Inr (boot_kernel\<lparr>heap := (heap boot_kernel)(0 \<mapsto>
           [zeroed_ops\<lparr>count := 7\<rparr>, zeroed_ops\<lparr>count := 3\<rparr>, zeroed_ops\<lparr>count := 3\<rparr>]),
          events := [Pr_warn_counter 7 3, Pr_warn_counter 7 3, Pr_warn_counter 7 3]\<rparr>)"
proof -
  let ?arr = "[zeroed_ops\<lparr>count := 7\<rparr>, zeroed_ops\<lparr>count := 3\<rparr>, zeroed_ops\<lparr>count := 3\<rparr>]"
  let ?k = "boot_kernel\<lparr>heap := (heap boot_kernel)(0 \<mapsto> ?arr)\<rparr>"
  have h1: "check_count (default_module\<lparr>check_count := True\<rparr>)" by simp
  have h2: "heap ?k 0 = Some ?arr" by simp
  have h3: "1 \<le> sint (3 :: u32)" by simp
  have h4: "length ?arr = nat (sint (3 :: u32))" by simp
  have r: "replicate 3 c = [c, c, c]" for c :: event
    by (simp add: numeral_3_eq_3)
  show ?thesis
    using ops_check_first_element [OF h1 h2 h3 h4, of 3] h3
    by (simp add: boot_kernel_def r)
qed

text \<open>
  C10. When its allocation fails, \<open>ops_alloc_init\<close> returns a null pointer and has
  done nothing but count the allocation and warn: the kernel's memory, so every
  registration and filter, is as it was and no ftrace request was made. \<open>ops_destroy\<close>
  of a null pointer returns the kernel as it is. So the teardown cannot fault, whichever
  allocations failed and whatever the host made of the ftrace requests: neither right
  after the registration step, through \<open>ftrace_ops_sample_exit\<close> or the last step of
  initialisation, nor in a whole run, where initialisation returns and, when it left
  the module loaded, \<open>ftrace_ops_sample_exit\<close> returns after it.
\<close>

theorem teardown_cannot_fault:
  "(kcalloc_fails e (nalloc k) \<longrightarrow>
      ops_alloc_init e t fn fl nr k
        = Inr (None, k\<lparr>nalloc := nalloc k + 1, events := events k @ [Warn_on_once 126]\<rparr>)) \<and>
   ops_destroy None nr k = Inr k \<and>
   (\<exists>s2. init_register e fl (m, k) = Inr s2 \<and>
      (\<exists>s3. ftrace_ops_sample_exit s2 = Inr s3) \<and> (\<exists>r. init_finish s2 = Inr r)) \<and>
   (nr_function_calls m \<noteq> 0 \<longrightarrow>
      (\<exists>rc m' k'. ftrace_ops_sample_init e (m, k) = Inr (rc, m', k') \<and>
         (persist m \<longrightarrow> (\<exists>s. ftrace_ops_sample_exit (m', k') = Inr s))))"
proof (intro conjI impI)
  assume "kcalloc_fails e (nalloc k)"
  then show "ops_alloc_init e t fn fl nr k
        = Inr (None, k\<lparr>nalloc := nalloc k + 1, events := events k @ [Warn_on_once 126]\<rparr>)"
    by (rule ops_alloc_init_null)
next
  show "ops_destroy None nr k = Inr k"
    by (simp add: ops_destroy_def)
next
  from init_register_arrays [of e fl m k] obtain p q k'
    where r: "init_register e fl (m, k) = Inr (m\<lparr>ops_relevant := p, ops_irrelevant := q\<rparr>, k')"
      and ok: "ptrs_ok (m\<lparr>ops_relevant := p, ops_irrelevant := q\<rparr>, k')"
    by blast
  from exit_safe [OF ok] init_finish_safe [OF ok] r
  show "\<exists>s2. init_register e fl (m, k) = Inr s2 \<and>
      (\<exists>s3. ftrace_ops_sample_exit s2 = Inr s3) \<and> (\<exists>r. init_finish s2 = Inr r)"
    by auto
next
  assume nz: "nr_function_calls m \<noteq> 0"
  let ?m1 = "fst (snd (init_flags e (m, k)))"
  from init_reaches_finish [OF nz, of e k] obtain p q and k5 :: kernel
    where run: "ftrace_ops_sample_init e (m, k)
        = init_finish (?m1\<lparr>ops_relevant := p, ops_irrelevant := q\<rparr>, k5)"
      and ok: "ptrs_ok (?m1\<lparr>ops_relevant := p, ops_irrelevant := q\<rparr>, k5)"
    by blast
  let ?m2 = "?m1\<lparr>ops_relevant := p, ops_irrelevant := q\<rparr>"
  have pe: "persist ?m2 = persist m"
    by (simp add: init_flags_module)
  from init_finish_safe [OF ok] obtain k'
    where f: "init_finish (?m2, k5) = Inr (if persist ?m2 then 0 else - EINVAL, ?m2, k')"
      and h: "\<forall>b. heap k' b = (if \<not> persist ?m2 \<and> (Some b = ops_relevant ?m2 \<or>
                  Some b = ops_irrelevant ?m2) then None else heap k5 b)"
    by blast
  have "persist m \<longrightarrow> (\<exists>s. ftrace_ops_sample_exit (?m2, k') = Inr s)"
  proof
    assume "persist m"
    with h pe have "heap k' = heap k5"
      by (intro ext) simp
    with ok have "ptrs_ok (?m2, k')"
      by (rule ptrs_ok_heap_eq)
    from exit_safe [OF this] show "\<exists>s. ftrace_ops_sample_exit (?m2, k') = Inr s"
      by blast
  qed
  with run f show "\<exists>rc m' k'. ftrace_ops_sample_init e (m, k) = Inr (rc, m', k') \<and>
         (persist m \<longrightarrow> (\<exists>s. ftrace_ops_sample_exit (m', k') = Inr s))"
    by auto
qed

theorem teardown_cannot_fault_witness:
  "kcalloc_fails first_alloc_fails_env (nalloc boot_kernel) \<and>
   ops_alloc_init first_alloc_fails_env Tracee_relevant Ops_func_nop 0 1 boot_kernel
     = Inr (None, boot_kernel\<lparr>nalloc := 1, events := [Warn_on_once 126]\<rparr>) \<and>
   ops_destroy None 1 boot_kernel = Inr boot_kernel \<and>
   (\<exists>s2. init_register first_alloc_fails_env 0
        (default_module\<lparr>nr_function_calls := 2, nr_ops_irrelevant := 2, persist := True\<rparr>,
         boot_kernel) = Inr s2 \<and>
      (\<exists>s3. ftrace_ops_sample_exit s2 = Inr s3) \<and> (\<exists>r. init_finish s2 = Inr r)) \<and>
   nr_function_calls (default_module\<lparr>nr_function_calls := 2, nr_ops_irrelevant := 2,
      persist := True\<rparr>) \<noteq> 0 \<and>
   persist (default_module\<lparr>nr_function_calls := 2, nr_ops_irrelevant := 2, persist := True\<rparr>) \<and>
   (\<exists>rc m' k'. ftrace_ops_sample_init first_alloc_fails_env
        (default_module\<lparr>nr_function_calls := 2, nr_ops_irrelevant := 2, persist := True\<rparr>,
         boot_kernel) = Inr (rc, m', k') \<and>
      (\<exists>s. ftrace_ops_sample_exit (m', k') = Inr s))"
proof -
  let ?m = "default_module\<lparr>nr_function_calls := 2, nr_ops_irrelevant := 2, persist := True\<rparr>"
  have f: "kcalloc_fails first_alloc_fails_env (nalloc boot_kernel)"
    by (simp add: first_alloc_fails_env_def boot_kernel_def)
  have n: "nr_function_calls ?m \<noteq> 0" "persist ?m"
    by (simp_all add: default_module_def)
  from teardown_cannot_fault [of first_alloc_fails_env boot_kernel Tracee_relevant Ops_func_nop
      0 1 ?m] f n
  show ?thesis
    by (simp add: boot_kernel_def)
qed

end
